theory Spec2Isabelle
  imports Complex_Main "HOL-Library.Code_Target_Nat"
begin

section \<open>JavaScript strings\<close>

text \<open>
  A JavaScript string is a sequence of UTF-16 code units; a code unit is modelled as a
  natural number.  \<open>js\<close> turns an ASCII literal into such a sequence; the two non-ASCII
  symbols of the source are the euro sign (U+20AC) and the pound sign (U+00A3).
\<close>

type_synonym jsstring = "nat list"

definition js :: "string \<Rightarrow> jsstring" where
  "js cs = map of_char cs"

definition euro_sign :: nat where
  "euro_sign = 8364"

definition pound_sign :: nat where
  "pound_sign = 163"

definition isDigit :: "nat \<Rightarrow> bool" where
  "isDigit c = (48 \<le> c \<and> c \<le> 57)"

definition isUpper :: "nat \<Rightarrow> bool" where
  "isUpper c = (65 \<le> c \<and> c \<le> 90)"

definition isLower :: "nat \<Rightarrow> bool" where
  "isLower c = (97 \<le> c \<and> c \<le> 122)"

text \<open>The class \<open>\w\<close>, which decides where \<open>\b\<close> matches.\<close>

definition isWordChar :: "nat \<Rightarrow> bool" where
  "isWordChar c = (isDigit c \<or> isUpper c \<or> isLower c \<or> c = 95)"

text \<open>
  The class \<open>\s\<close> (white space and line terminators); \<open>String.prototype.trim\<close> strips
  the same set.
\<close>

definition isSpace :: "nat \<Rightarrow> bool" where
  "isSpace c = (c = 9 \<or> c = 10 \<or> c = 11 \<or> c = 12 \<or> c = 13 \<or> c = 32 \<or> c = 160
     \<or> c = 5760 \<or> (8192 \<le> c \<and> c \<le> 8202) \<or> c = 8232 \<or> c = 8233 \<or> c = 8239
     \<or> c = 8287 \<or> c = 12288 \<or> c = 65279)"

definition trim :: "jsstring \<Rightarrow> jsstring" where
  "trim s = rev (dropWhile isSpace (rev (dropWhile isSpace s)))"

text \<open>\<open>s.split(sep)\<close> for a separator of one code unit: never an empty array.\<close>

fun split :: "nat \<Rightarrow> jsstring \<Rightarrow> jsstring list" where
  "split sep [] = [[]]"
| "split sep (c # cs) =
     (if c = sep then [] # split sep cs
      else (case split sep cs of [] \<Rightarrow> [[c]] | l # ls \<Rightarrow> (c # l) # ls))"

text \<open>
  \<open>s.replace(pat, new)\<close> with a string pattern: the first occurrence only, the string
  unchanged when there is none.
\<close>

fun replace_first :: "jsstring \<Rightarrow> jsstring \<Rightarrow> jsstring \<Rightarrow> jsstring" where
  "replace_first pat new [] = (if pat = [] then new else [])"
| "replace_first pat new (c # cs) =
     (if take (length pat) (c # cs) = pat then new @ drop (length pat) (c # cs)
      else c # replace_first pat new cs)"

section \<open>Regular expressions with backtracking priority\<close>

text \<open>
  The regular expressions of the source are kept as syntax trees and run by one matcher.
  A matcher state is the code unit before the current position (none at the start of the
  input) and the input that is left.  \<open>rm\<close> returns every state in which a match of the
  expression can end, in the order in which a backtracking matcher tries them: the greedy
  choice first.  The first element is the match JavaScript reports.
\<close>

datatype cls = Digit | Space | UpperAZ | OneOf "nat list"

datatype re =
    Eps
  | Chr nat
  | Cls "cls list"
  | Seq re re
  | Alt re re
  | Opt re
  | Star re
  | Rep nat nat re
  | Bol
  | Eol
  | WordB

type_synonym mstate = "nat option \<times> jsstring"

text \<open>
  Canonicalisation under the flag \<open>i\<close>.  Every letter of a pattern in the source is
  ASCII, and a code unit above 127 never canonicalises to an ASCII one, so only the ASCII
  letters are folded.
\<close>

definition canon :: "bool \<Rightarrow> nat \<Rightarrow> nat" where
  "canon ci c = (if ci \<and> isLower c then c - 32 else c)"

fun cls_mem :: "cls \<Rightarrow> nat \<Rightarrow> bool" where
  "cls_mem Digit c = isDigit c"
| "cls_mem Space c = isSpace c"
| "cls_mem UpperAZ c = isUpper c"
| "cls_mem (OneOf cs) c = (c \<in> set cs)"

definition in_class :: "bool \<Rightarrow> cls list \<Rightarrow> nat \<Rightarrow> bool" where
  "in_class ci items c =
     (list_ex (\<lambda>it. cls_mem it c) items
      \<or> (ci \<and> isLower c \<and> list_ex (\<lambda>it. cls_mem it (c - 32)) items)
      \<or> (ci \<and> isUpper c \<and> list_ex (\<lambda>it. cls_mem it (c + 32)) items))"

definition progress :: "mstate \<Rightarrow> mstate \<Rightarrow> bool" where
  "progress st st' = (length (snd st') < length (snd st))"

text \<open>
  \<open>r*\<close>, greedy: one more iteration first, the empty match last.  An iteration that
  consumes nothing is rejected, as the language definition says; so the length of the
  input bounds the number of iterations, and that is the first argument.
\<close>

fun star :: "nat \<Rightarrow> (mstate \<Rightarrow> mstate list) \<Rightarrow> mstate \<Rightarrow> mstate list" where
  "star 0 f st = [st]"
| "star (Suc n) f st = concat (map (star n f) (filter (progress st) (f st))) @ [st]"

text \<open>\<open>r{lo,hi}\<close>, greedy.\<close>

fun rep :: "nat \<Rightarrow> nat \<Rightarrow> (mstate \<Rightarrow> mstate list) \<Rightarrow> mstate \<Rightarrow> mstate list" where
  "rep lo 0 f st = (if lo = 0 then [st] else [])"
| "rep lo (Suc hi) f st =
     concat (map (rep (lo - 1) hi f) (if lo = 0 then filter (progress st) (f st) else f st))
     @ (if lo = 0 then [st] else [])"

definition is_word_opt :: "nat option \<Rightarrow> bool" where
  "is_word_opt p = (case p of None \<Rightarrow> False | Some c \<Rightarrow> isWordChar c)"

definition next_unit :: "jsstring \<Rightarrow> nat option" where
  "next_unit xs = (case xs of [] \<Rightarrow> None | x # _ \<Rightarrow> Some x)"

primrec rm :: "bool \<Rightarrow> re \<Rightarrow> mstate \<Rightarrow> mstate list" where
  "rm ci Eps = (\<lambda>st. [st])"
| "rm ci (Chr c) = (\<lambda>st. case snd st of [] \<Rightarrow> []
     | x # xs \<Rightarrow> if canon ci x = canon ci c then [(Some x, xs)] else [])"
| "rm ci (Cls items) = (\<lambda>st. case snd st of [] \<Rightarrow> []
     | x # xs \<Rightarrow> if in_class ci items x then [(Some x, xs)] else [])"
| "rm ci (Seq a b) = (\<lambda>st. concat (map (rm ci b) (rm ci a st)))"
| "rm ci (Alt a b) = (\<lambda>st. rm ci a st @ rm ci b st)"
| "rm ci (Opt a) = (\<lambda>st. filter (progress st) (rm ci a st) @ [st])"
| "rm ci (Star a) = (\<lambda>st. star (length (snd st)) (rm ci a) st)"
| "rm ci (Rep lo hi a) = (\<lambda>st. rep lo hi (rm ci a) st)"
| "rm ci Bol = (\<lambda>st. if fst st = None then [st] else [])"
| "rm ci Eol = (\<lambda>st. if snd st = [] then [st] else [])"
| "rm ci WordB = (\<lambda>st. if is_word_opt (fst st) \<noteq> is_word_opt (next_unit (snd st))
     then [st] else [])"

text \<open>\<open>r+\<close> is \<open>rr*\<close>; a literal word is the sequence of its code units.\<close>

definition Plus :: "re \<Rightarrow> re" where
  "Plus r = Seq r (Star r)"

fun Lit :: "jsstring \<Rightarrow> re" where
  "Lit [] = Eps"
| "Lit [c] = Chr c"
| "Lit (c # cs) = Seq (Chr c) (Lit cs)"

fun Alts :: "re list \<Rightarrow> re" where
  "Alts [] = Eps"
| "Alts [r] = r"
| "Alts (r # rs) = Alt r (Alts rs)"

definition Word :: "string \<Rightarrow> re" where
  "Word w = Lit (js w)"

text \<open>
  The leftmost match: the first start position, from the left, at which the expression
  matches, with the text before the match, the match, and the text after it.
\<close>

fun search :: "bool \<Rightarrow> re \<Rightarrow> nat option \<Rightarrow> jsstring
    \<Rightarrow> (jsstring \<times> jsstring \<times> jsstring) option" where
  "search ci r p [] =
     (case rm ci r (p, []) of [] \<Rightarrow> None | st # _ \<Rightarrow> Some ([], [], []))"
| "search ci r p (x # xs) =
     (case rm ci r (p, x # xs) of
        st # _ \<Rightarrow> Some ([], take (length (x # xs) - length (snd st)) (x # xs), snd st)
      | [] \<Rightarrow> map_option (\<lambda>(pre, m, post). (x # pre, m, post)) (search ci r (Some x) xs))"

text \<open>\<open>re.test(s)\<close> and \<open>s.match(re)\<close> for a regular expression without the flag \<open>g\<close>.\<close>

definition re_test :: "bool \<Rightarrow> re \<Rightarrow> jsstring \<Rightarrow> bool" where
  "re_test ci r s = (search ci r None s \<noteq> None)"

text \<open>
  The same for an expression \<open>r1(r2)\<close> whose second part is a capture group: the first
  way of matching \<open>r1\<close> after which \<open>r2\<close> matches.  The result is the text before the
  match, the match, the group, and the text after.
\<close>

fun first_group :: "mstate list \<Rightarrow> (mstate \<Rightarrow> mstate list) \<Rightarrow> (mstate \<times> mstate) option" where
  "first_group [] f = None"
| "first_group (st # sts) f =
     (case f st of [] \<Rightarrow> first_group sts f | e # _ \<Rightarrow> Some (st, e))"

definition group_at :: "bool \<Rightarrow> re \<Rightarrow> re \<Rightarrow> nat option \<Rightarrow> jsstring
    \<Rightarrow> (jsstring \<times> jsstring \<times> jsstring) option" where
  "group_at ci r1 r2 p xs =
     (case first_group (rm ci r1 (p, xs)) (rm ci r2) of
        None \<Rightarrow> None
      | Some (st1, st2) \<Rightarrow>
          Some (take (length xs - length (snd st2)) xs,
                take (length (snd st1) - length (snd st2)) (snd st1),
                snd st2))"

fun search_group :: "bool \<Rightarrow> re \<Rightarrow> re \<Rightarrow> nat option \<Rightarrow> jsstring
    \<Rightarrow> (jsstring \<times> jsstring \<times> jsstring \<times> jsstring) option" where
  "search_group ci r1 r2 p [] =
     (case group_at ci r1 r2 p [] of
        None \<Rightarrow> None
      | Some (m, g, post) \<Rightarrow> Some ([], m, g, post))"
| "search_group ci r1 r2 p (x # xs) =
     (case group_at ci r1 r2 p (x # xs) of
        Some (m, g, post) \<Rightarrow> Some ([], m, g, post)
      | None \<Rightarrow> map_option (\<lambda>(pre, m, g, post). (x # pre, m, g, post))
                 (search_group ci r1 r2 (Some x) xs))"

text \<open>\<open>s.replace(re, new)\<close> without the flag \<open>g\<close>: the leftmost match only.\<close>

definition re_replace :: "bool \<Rightarrow> re \<Rightarrow> jsstring \<Rightarrow> jsstring \<Rightarrow> jsstring" where
  "re_replace ci r new s =
     (case search ci r None s of None \<Rightarrow> s | Some (pre, m, post) \<Rightarrow> pre @ new @ post)"

text \<open>
  \<open>s.replace(re, new)\<close> with the flag \<open>g\<close>: every match, each search starting where the
  last match ended, one code unit further after an empty match.  Every round consumes
  input, so the length of the input, plus one, bounds the number of rounds.
\<close>

fun replace_rounds :: "nat \<Rightarrow> bool \<Rightarrow> re \<Rightarrow> jsstring \<Rightarrow> nat option \<Rightarrow> jsstring \<Rightarrow> jsstring" where
  "replace_rounds 0 ci r new p xs = xs"
| "replace_rounds (Suc n) ci r new p xs =
     (case search ci r p xs of
        None \<Rightarrow> xs
      | Some (pre, m, post) \<Rightarrow>
          if m = [] then
            (case post of
               [] \<Rightarrow> pre @ new
             | c # post' \<Rightarrow> pre @ new @ [c] @ replace_rounds n ci r new (Some c) post')
          else pre @ new @ replace_rounds n ci r new (Some (last m)) post)"

definition re_replace_all :: "bool \<Rightarrow> re \<Rightarrow> jsstring \<Rightarrow> jsstring \<Rightarrow> jsstring" where
  "re_replace_all ci r new s = replace_rounds (Suc (length s)) ci r new None s"

section \<open>Numbers\<close>

text \<open>
  A JavaScript number is a double.  A finite double is a rational number with a
  significand of 53 bits, and every arithmetic operation returns the double nearest to the
  exact result, a tie going to the even significand.  \<open>fl\<close> is that rounding: it scales
  the number by a power of two so that it lies between \<open>2^52\<close> and \<open>2^53\<close>, rounds to an
  integer, and scales back.  The range of the exponent is not bounded here: overflow to an
  infinity and the subnormal numbers are left out.  \<open>NaN\<close> is a value of its own.
\<close>

text \<open>The number of binary digits of a positive integer.\<close>

function bitlen :: "int \<Rightarrow> int" where
  "bitlen n = (if n \<le> 0 then 0 else 1 + bitlen (n div 2))"
  by pat_completeness auto
termination
  by (relation "measure nat") auto

declare bitlen.simps [simp del]

definition pow2 :: "int \<Rightarrow> rat" where
  "pow2 e = (if 0 \<le> e then 2 ^ nat e else 1 / 2 ^ nat (- e))"

text \<open>For a positive \<open>x\<close>, the exponent \<open>e\<close> with \<open>2^e \<le> x < 2^(e+1)\<close>.\<close>

definition ilog2 :: "rat \<Rightarrow> int" where
  "ilog2 x =
     (let d = bitlen (fst (quotient_of x)) - bitlen (snd (quotient_of x))
      in if pow2 d \<le> x then d else d - 1)"

text \<open>Rounding to the nearest integer, a tie going to the even one.\<close>

definition rne :: "rat \<Rightarrow> int" where
  "rne y =
     (let f = \<lfloor>y\<rfloor>; d = y - of_int f
      in if d < 1 / 2 then f else if 1 / 2 < d then f + 1 else if even f then f else f + 1)"

definition fl :: "rat \<Rightarrow> rat" where
  "fl x = (if x = 0 then 0
           else let u = pow2 (ilog2 \<bar>x\<bar> - 52) in of_int (rne (x / u)) * u)"

datatype number = Num rat | NaN

fun js_add :: "number \<Rightarrow> number \<Rightarrow> number" where
  "js_add (Num a) (Num b) = Num (fl (a + b))"
| "js_add _ _ = NaN"

fun js_mul :: "number \<Rightarrow> number \<Rightarrow> number" where
  "js_mul (Num a) (Num b) = Num (fl (a * b))"
| "js_mul _ _ = NaN"

text \<open>Division by a non-zero constant is all the source uses.\<close>

fun js_div :: "number \<Rightarrow> number \<Rightarrow> number" where
  "js_div (Num a) (Num b) = (if b = 0 then NaN else Num (fl (a / b)))"
| "js_div _ _ = NaN"

text \<open>
  \<open>Math.round\<close>: the nearest integer, a tie going up.  The result is exact: an integer
  below \<open>2^53\<close> is a double, and a double from \<open>2^52\<close> on is an integer already.
\<close>

fun Math_round :: "number \<Rightarrow> number" where
  "Math_round (Num a) = Num (of_int \<lfloor>a + 1 / 2\<rfloor>)"
| "Math_round NaN = NaN"

fun js_ge :: "number \<Rightarrow> number \<Rightarrow> bool" where
  "js_ge (Num a) (Num b) = (b \<le> a)"
| "js_ge _ _ = False"

definition digits_val :: "jsstring \<Rightarrow> nat" where
  "digits_val ds = foldl (\<lambda>a c. 10 * a + (c - 48)) 0 ds"

text \<open>
  \<open>parseFloat\<close> on the longest prefix that is an unsigned decimal literal: leading white
  space, digits, and a fraction after a dot; the double nearest to its value, and \<open>NaN\<close>
  when there is no digit.  Sign, exponent and \<open>Infinity\<close> are left out: the source
  applies \<open>parseFloat\<close> to a price token only.
\<close>

definition parseFloat :: "jsstring \<Rightarrow> number" where
  "parseFloat s =
     (let t = dropWhile isSpace s;
          ip = takeWhile isDigit t;
          r = dropWhile isDigit t;
          fp = (case r of [] \<Rightarrow> [] | c # r' \<Rightarrow> if c = 46 then takeWhile isDigit r' else [])
      in if ip = [] \<and> fp = [] then NaN
         else Num (fl (of_nat (digits_val ip) + of_nat (digits_val fp) / 10 ^ length fp)))"

section \<open>The extracted record\<close>

text \<open>
  The values the structured backend returns are JSON values, and the coercion step keeps
  some of them as they are, so the text fields of a record hold JSON values.  A JSON
  number is the double that \<open>JSON.parse\<close> has made of it.
\<close>

datatype json =
    JNull
  | JBool bool
  | JNum rat
  | JStr jsstring
  | JArr "json list"
  | JObj "(jsstring \<times> json) list"

record receipt_item =
  item_name :: json
  item_cost :: number

record ExtractedReceiptData =
  date :: json
  currency :: json
  vendor_name :: json
  receipt_items :: "receipt_item list"
  tax :: number
  total :: number

text \<open>
  The clock: what \<open>new Date().toISOString().split('T')[0]\<close> and
  \<open>new Date().toLocaleDateString()\<close> return when the request is served.
\<close>

record clock =
  iso_date :: jsstring
  locale_date :: jsstring

section \<open>The text parser\<close>

definition vendor_digit_re :: re where
  "vendor_digit_re = Seq Bol (Cls [Digit])"

definition vendor_upper_re :: re where
  "vendor_upper_re = Seq Bol (Seq (Plus (Cls [UpperAZ, Space])) Eol)"

definition vendor_header_re :: re where
  "vendor_header_re = Seq Bol (Alts [Word ''Rech'', Word ''Receipt'', Word ''Invoice'',
     Word ''Bill'', Word ''Date'', Word ''Time'', Word ''Table'', Word ''Tisch''])"

definition ws_run_re :: re where
  "ws_run_re = Plus (Cls [Space])"

definition vendor_suffix_re :: re where
  "vendor_suffix_re = Seq (Plus (Cls [Space])) (Seq (Alts [Word ''GmbH'', Word ''AG'',
     Word ''Ltd'', Word ''Inc'', Word ''Corp'', Word ''LLC'', Word ''Restaurant'',
     Word ''Hotel'', Word ''Cafe'', Word ''Bar'']) Eol)"

definition vendor_ok :: "jsstring \<Rightarrow> bool" where
  "vendor_ok line = (line \<noteq> [] \<and> length line > 3
     \<and> \<not> re_test False vendor_digit_re line
     \<and> \<not> re_test False vendor_upper_re line
     \<and> \<not> re_test True vendor_header_re line)"

definition clean_vendor :: "jsstring \<Rightarrow> jsstring" where
  "clean_vendor line =
     (let vendorName = trim (re_replace_all False ws_run_re (js '' '') line)
      in re_replace True vendor_suffix_re [] vendorName)"

fun vendor_loop :: "jsstring list \<Rightarrow> jsstring" where
  "vendor_loop [] = js ''Unknown Vendor''"
| "vendor_loop (l # ls) =
     (let line = trim l in if vendor_ok line then clean_vendor line else vendor_loop ls)"

definition extractVendorName :: "jsstring list \<Rightarrow> jsstring" where
  "extractVendorName lines = vendor_loop (take (min 5 (length lines)) lines)"

definition date_sep :: re where
  "date_sep = Cls [OneOf (js ''/-'')]"

definition month_abbrevs :: re where
  "month_abbrevs = Alts [Word ''Jan'', Word ''Feb'', Word ''Mar'', Word ''Apr'', Word ''May'',
     Word ''Jun'', Word ''Jul'', Word ''Aug'', Word ''Sep'', Word ''Oct'', Word ''Nov'',
     Word ''Dec'']"

definition month_names :: re where
  "month_names = Alts [Word ''January'', Word ''February'', Word ''March'', Word ''April'',
     Word ''May'', Word ''June'', Word ''July'', Word ''August'', Word ''September'',
     Word ''October'', Word ''November'', Word ''December'']"

definition date_dmy_re :: re where
  "date_dmy_re = Seq (Rep 1 2 (Cls [Digit])) (Seq date_sep (Seq (Rep 1 2 (Cls [Digit]))
     (Seq date_sep (Rep 2 4 (Cls [Digit])))))"

definition date_ymd_re :: re where
  "date_ymd_re = Seq (Rep 4 4 (Cls [Digit])) (Seq date_sep (Seq (Rep 1 2 (Cls [Digit]))
     (Seq date_sep (Rep 1 2 (Cls [Digit])))))"

definition date_mon_re :: re where
  "date_mon_re = Seq (Rep 1 2 (Cls [Digit])) (Seq (Plus (Cls [Space])) (Seq month_abbrevs
     (Seq (Plus (Cls [Space])) (Rep 2 4 (Cls [Digit])))))"

definition date_month_re :: re where
  "date_month_re = Seq (Rep 1 2 (Cls [Digit])) (Seq (Plus (Cls [Space])) (Seq month_names
     (Seq (Plus (Cls [Space])) (Rep 2 4 (Cls [Digit])))))"

definition datePatterns :: "(bool \<times> re) list" where
  "datePatterns = [(False, date_dmy_re), (False, date_ymd_re), (True, date_mon_re),
     (True, date_month_re)]"

text \<open>
  With the flag \<open>g\<close>, \<open>text.match(pattern)\<close> is the array of all matches; its element 0
  is the leftmost match.
\<close>

fun date_loop :: "(bool \<times> re) list \<Rightarrow> clock \<Rightarrow> jsstring \<Rightarrow> jsstring" where
  "date_loop [] clk text = locale_date clk"
| "date_loop ((ci, pattern) # ps) clk text =
     (case search ci pattern None text of
        Some (pre, m, post) \<Rightarrow> m
      | None \<Rightarrow> date_loop ps clk text)"

definition extractDate :: "clock \<Rightarrow> jsstring \<Rightarrow> jsstring" where
  "extractDate clk text = date_loop datePatterns clk text"

definition bword :: "string \<Rightarrow> re" where
  "bword w = Seq WordB (Seq (Word w) WordB)"

definition currencyPatterns :: "(string \<times> re) list" where
  "currencyPatterns =
     [(''CHF'', Alts [bword ''CHF'', bword ''Swiss'', bword ''Schweiz'']),
      (''USD'', Alts [Chr 36, bword ''USD'', Seq WordB (Seq (Word ''US$'') WordB)]),
      (''EUR'', Alts [Chr euro_sign, bword ''EUR'']),
      (''GBP'', Alts [Chr pound_sign, bword ''GBP'']),
      (''CAD'', bword ''CAD''),
      (''AUD'', bword ''AUD'')]"

fun currency_loop :: "(string \<times> re) list \<Rightarrow> jsstring \<Rightarrow> jsstring" where
  "currency_loop [] text = js ''USD''"
| "currency_loop ((code, pattern) # ps) text =
     (if re_test False pattern text then js code else currency_loop ps text)"

definition extractCurrency :: "jsstring \<Rightarrow> jsstring" where
  "extractCurrency text = currency_loop currencyPatterns text"

definition price_prefix_re :: re where
  "price_prefix_re = Seq (Opt (Alts [Word ''CHF'', Word ''USD'', Word ''EUR'', Chr pound_sign,
     Chr 36])) (Star (Cls [Space]))"

definition price_group_re :: re where
  "price_group_re = Seq (Plus (Cls [Digit])) (Seq (Cls [OneOf (js ''.,'')])
     (Rep 2 2 (Cls [Digit])))"

definition item_keyword_re :: re where
  "item_keyword_re = Seq Bol (Alts [Word ''TOTAL'', Word ''TAX'', Word ''SUBTOTAL'',
     Word ''BALANCE'', Word ''MwSt'', Word ''VAT''])"

text \<open>The body of the \<open>forEach\<close> of \<open>extractItems\<close>: the items one line contributes.\<close>

definition item_of_line :: "nat \<Rightarrow> nat \<times> jsstring \<Rightarrow> receipt_item list" where
  "item_of_line len il =
     (case il of (index, line) \<Rightarrow>
      (case search_group False price_prefix_re price_group_re None line of
         None \<Rightarrow> []
       | Some (pre, m, g, post) \<Rightarrow>
           if int index < int len - 1 then
             (let price = parseFloat (replace_first (js '','') (js ''.'') g);
                  itemName = trim (replace_first m [] line)
              in if itemName \<noteq> [] \<and> length itemName > 2
                    \<and> \<not> re_test True item_keyword_re itemName
                 then [\<lparr>item_name = JStr itemName, item_cost = price\<rparr>]
                 else [])
           else []))"

definition extractItems :: "jsstring list \<Rightarrow> receipt_item list" where
  "extractItems lines =
     (let items = concat (map (item_of_line (length lines)) (zip [0..<length lines] lines))
      in if length items > 0 then items
         else [\<lparr>item_name = JStr (js ''General Items''), item_cost = Num 0\<rparr>])"

definition calculateTotals :: "receipt_item list \<Rightarrow> number \<times> number" where
  "calculateTotals items =
     (let subtotal = foldl (\<lambda>sum item. js_add sum (item_cost item)) (Num 0) items;
          tax = js_mul subtotal (Num (fl (1 / 10)));
          total = js_add subtotal tax
      in (js_div (Math_round (js_mul tax (Num 100))) (Num 100),
          js_div (Math_round (js_mul total (Num 100))) (Num 100)))"

definition text_lines :: "jsstring \<Rightarrow> jsstring list" where
  "text_lines text = filter (\<lambda>line. trim line \<noteq> []) (split 10 text)"

definition parseReceiptText :: "clock \<Rightarrow> jsstring \<Rightarrow> ExtractedReceiptData" where
  "parseReceiptText clk text =
     (let lines = text_lines text;
          vendorName = extractVendorName lines;
          d = extractDate clk text;
          cur = extractCurrency text;
          items = extractItems lines;
          tt = calculateTotals items
      in \<lparr>date = JStr d, currency = JStr cur, vendor_name = JStr vendorName,
          receipt_items = items, tax = fst tt, total = snd tt\<rparr>)"

section \<open>The extraction service\<close>

text \<open>
  Exceptions are values.  The messages are those of the source, without the values the
  source interpolates into them.  \<open>Uncaught\<close> is an error that is thrown where no
  \<open>try\<close> of the program encloses it, inside a callback that a library runs: no \<open>catch\<close>
  handles it, and as the program installs no handler for uncaught exceptions, the process
  ends with it.
\<close>

datatype exn =
    BadRequestException string
  | InternalServerErrorException string
  | Error string
  | Uncaught string

text \<open>
  The collaborators of \<open>AiService\<close> are parameters: whether each client was constructed
  (its credentials were present), what the remote calls return for an image, what
  \<open>JSON.parse\<close> makes of a string (\<open>None\<close> is a syntax error), and the clock.
  \<open>gpt_content\<close> is \<open>response.choices[0]?.message?.content\<close>, \<open>vision_text\<close> is
  \<open>result.fullTextAnnotation?.text\<close>, \<open>tesseract_text\<close> is \<open>result.data.text\<close>.

  A call ends in one of three ways: its promise is fulfilled (\<open>Inr\<close>), its promise is
  rejected (\<open>Inl\<close> of an exception that the awaiting \<open>try\<close> catches), or the library
  throws outside the promise (\<open>Inl\<close> of \<open>Uncaught\<close>).  The last is what
  \<open>Tesseract.recognize\<close> does when its worker reports an error, for one on bytes that
  it cannot read as an image: the source passes it a \<open>logger\<close> and no \<open>errorHandler\<close>,
  and without one the library, after rejecting the promise, throws the error again from
  the handler of the worker's message.
\<close>

record ai_env =
  openaiClient :: bool
  visionClient :: bool
  gpt_content :: "nat list \<Rightarrow> exn + jsstring option"
  JSON_parse :: "jsstring \<Rightarrow> json option"
  vision_text :: "nat list \<Rightarrow> exn + jsstring option"
  tesseract_text :: "nat list \<Rightarrow> exn + jsstring"
  clk :: clock

text \<open>
  Reading a property: a type error on \<open>null\<close>, the value of the key on an object,
  \<open>undefined\<close> (here \<open>None\<close>) on anything else, since no primitive and no array has one
  of the keys the source reads.
\<close>

fun get_prop :: "json \<Rightarrow> string \<Rightarrow> exn + json option" where
  "get_prop JNull k = Inl (Error ''TypeError'')"
| "get_prop (JObj kvs) k = Inr (map_of kvs (js k))"
| "get_prop _ k = Inr None"

fun truthy :: "json \<Rightarrow> bool" where
  "truthy JNull = False"
| "truthy (JBool b) = b"
| "truthy (JNum n) = (n \<noteq> 0)"
| "truthy (JStr s) = (s \<noteq> [])"
| "truthy (JArr xs) = True"
| "truthy (JObj kvs) = True"

text \<open>\<open>v || d\<close> for a property that may be undefined.\<close>

definition or_default :: "json option \<Rightarrow> json \<Rightarrow> json" where
  "or_default v d = (case v of None \<Rightarrow> d | Some x \<Rightarrow> if truthy x then x else d)"

text \<open>\<open>typeof v === 'number' ? v : 0\<close>.\<close>

definition number_or_zero :: "json option \<Rightarrow> number" where
  "number_or_zero v = (case v of Some (JNum n) \<Rightarrow> Num n | _ \<Rightarrow> Num 0)"

text \<open>Sequencing of steps that may throw.\<close>

definition and_then :: "exn + 'a \<Rightarrow> ('a \<Rightarrow> exn + 'b) \<Rightarrow> exn + 'b" where
  "and_then m f = (case m of Inl e \<Rightarrow> Inl e | Inr x \<Rightarrow> f x)"

text \<open>
  \<open>try { m } catch (error) { handler }\<close> around calls of collaborators: the handler
  runs on every exception but an uncaught one, which no \<open>catch\<close> sees.
\<close>

definition try_catch :: "exn + 'a \<Rightarrow> (exn \<Rightarrow> exn + 'a) \<Rightarrow> exn + 'a" where
  "try_catch m handler =
     (case m of
        Inl (Uncaught msg) \<Rightarrow> Inl (Uncaught msg)
      | Inl error \<Rightarrow> handler error
      | Inr x \<Rightarrow> Inr x)"

definition coerce_item :: "json \<Rightarrow> exn + receipt_item" where
  "coerce_item item =
     and_then (get_prop item ''item_name'') (\<lambda>name.
     and_then (get_prop item ''item_cost'') (\<lambda>cost.
       Inr \<lparr>item_name = or_default name (JStr (js ''Unknown Item'')),
            item_cost = number_or_zero cost\<rparr>))"

text \<open>\<open>Array.prototype.map\<close> with a callback that may throw: the first exception wins.\<close>

fun map_items :: "json list \<Rightarrow> exn + receipt_item list" where
  "map_items [] = Inr []"
| "map_items (x # xs) =
     and_then (coerce_item x) (\<lambda>i. and_then (map_items xs) (\<lambda>is. Inr (i # is)))"

definition general_items :: "receipt_item list" where
  "general_items = [\<lparr>item_name = JStr (js ''General Items''), item_cost = Num 0\<rparr>]"

definition sum_costs :: "receipt_item list \<Rightarrow> number" where
  "sum_costs items = foldl (\<lambda>sum item. js_add sum (item_cost item)) (Num 0) items"

definition validateAndTransformGptResponse :: "clock \<Rightarrow> json \<Rightarrow> exn + ExtractedReceiptData" where
  "validateAndTransformGptResponse c data =
     and_then (get_prop data ''date'') (\<lambda>d.
     and_then (get_prop data ''currency'') (\<lambda>cur.
     and_then (get_prop data ''vendor_name'') (\<lambda>vendor.
     and_then (get_prop data ''receipt_items'') (\<lambda>its.
     and_then (case its of Some (JArr xs) \<Rightarrow> map_items xs | _ \<Rightarrow> Inr general_items)
       (\<lambda>items0.
     and_then (get_prop data ''tax'') (\<lambda>tx.
     and_then (get_prop data ''total'') (\<lambda>tot.
       (let validatedData =
              \<lparr>date = or_default d (JStr (iso_date c)),
               currency = or_default cur (JStr (js ''USD'')),
               vendor_name = or_default vendor (JStr (js ''Unknown Vendor'')),
               receipt_items = items0,
               tax = number_or_zero tx,
               total = number_or_zero tot\<rparr>;
            validatedData =
              (if length (receipt_items validatedData) = 0
               then validatedData\<lparr>receipt_items := general_items\<rparr>
               else validatedData);
            validatedData =
              (if total validatedData = Num 0 \<and> length (receipt_items validatedData) > 0
               then validatedData\<lparr>total :=
                      js_add (sum_costs (receipt_items validatedData)) (tax validatedData)\<rparr>
               else validatedData)
        in Inr validatedData))))))))"

text \<open>
  The structured backend.  Every failure inside (the remote call, no content, a syntax
  error, an exception of the coercion step) is caught and thrown again as the same
  server fault.
\<close>

definition gpt_parse_step :: "ai_env \<Rightarrow> jsstring \<Rightarrow> exn + ExtractedReceiptData" where
  "gpt_parse_step env extractedText =
     (case (case JSON_parse env extractedText of
              None \<Rightarrow> Inl (Error ''SyntaxError'')
            | Some parsedData \<Rightarrow> validateAndTransformGptResponse (clk env) parsedData) of
        Inl parseError \<Rightarrow> Inl (Error ''Invalid response format from GPT-4 Vision'')
      | Inr r \<Rightarrow> Inr r)"

definition extractWithGpt4Vision :: "ai_env \<Rightarrow> nat list \<Rightarrow> exn + ExtractedReceiptData" where
  "extractWithGpt4Vision env imageBuffer =
     try_catch
       (and_then (gpt_content env imageBuffer) (\<lambda>content.
          case content of
            None \<Rightarrow> Inl (Error ''No response from GPT-4 Vision'')
          | Some extractedText \<Rightarrow>
              if extractedText = [] then Inl (Error ''No response from GPT-4 Vision'')
              else gpt_parse_step env extractedText))
       (\<lambda>error.
          Inl (InternalServerErrorException ''GPT-4 Vision service temporarily unavailable''))"

text \<open>The remote text detection, then the text parser: \<open>text || ''\<close> for a missing text.\<close>

definition extractWithVisionApi :: "ai_env \<Rightarrow> nat list \<Rightarrow> exn + ExtractedReceiptData" where
  "extractWithVisionApi env imageBuffer =
     try_catch
       (and_then (vision_text env imageBuffer) (\<lambda>t.
          Inr (parseReceiptText (clk env) (case t of None \<Rightarrow> [] | Some text \<Rightarrow> text))))
       (\<lambda>error. Inl (InternalServerErrorException ''AI service temporarily unavailable''))"

definition ocr_failed_record :: "clock \<Rightarrow> ExtractedReceiptData" where
  "ocr_failed_record c =
     \<lparr>date = JStr (locale_date c), currency = JStr (js ''USD''),
      vendor_name = JStr (js ''Unknown Vendor (OCR failed)''),
      receipt_items = [\<lparr>item_name = JStr (js ''Receipt Items''), item_cost = Num 0\<rparr>],
      tax = Num 0, total = Num 0\<rparr>"

text \<open>
  The local pass: a rejection of the OCR call and whatever else is thrown inside the
  \<open>try\<close> is caught and answered by the fixed record.
\<close>

definition fallbackParsing :: "ai_env \<Rightarrow> nat list \<Rightarrow> exn + ExtractedReceiptData" where
  "fallbackParsing env imageBuffer =
     try_catch
       (and_then (tesseract_text env imageBuffer) (\<lambda>extractedText.
          Inr (parseReceiptText (clk env) extractedText)))
       (\<lambda>error. Inr (ocr_failed_record (clk env)))"

text \<open>
  The orchestrator.  \<open>attempt\<close> is an inner \<open>try\<close> around a backend whose client exists;
  its \<open>catch\<close> only logs, so that a failure falls through to the next statement
  (\<open>None\<close>).  The outer \<open>catch\<close> runs the local pass again.
\<close>

definition attempt :: "bool \<Rightarrow> exn + ExtractedReceiptData
    \<Rightarrow> exn + ExtractedReceiptData option" where
  "attempt client r =
     (if client then try_catch (and_then r (\<lambda>x. Inr (Some x))) (\<lambda>error. Inr None)
      else Inr None)"

definition extractReceiptData :: "ai_env \<Rightarrow> nat list \<Rightarrow> exn + ExtractedReceiptData" where
  "extractReceiptData env imageBuffer =
     try_catch
       (and_then (attempt (openaiClient env) (extractWithGpt4Vision env imageBuffer)) (\<lambda>gpt.
          case gpt of
            Some r \<Rightarrow> Inr r
          | None \<Rightarrow>
              and_then (attempt (visionClient env) (extractWithVisionApi env imageBuffer))
                (\<lambda>vision.
                   case vision of
                     Some r \<Rightarrow> Inr r
                   | None \<Rightarrow> fallbackParsing env imageBuffer)))
       (\<lambda>error. fallbackParsing env imageBuffer)"

section \<open>The file store\<close>

text \<open>
  An upload as the framework hands it over.  The file system is a map from paths to
  contents and a flag for the upload directory.  \<open>path.extname\<close> and the generated
  identifiers come from outside and are parameters, as is the success of each file system
  and database operation.
\<close>

record upload_file =
  originalname :: jsstring
  mimetype :: jsstring
  size :: nat
  buffer :: "nat list option"

record ReceiptResponseDto = ExtractedReceiptData +
  id :: jsstring
  image_url :: jsstring

record Receipt = ReceiptResponseDto +
  created_at :: nat
  updated_at :: nat

record world =
  files :: "jsstring \<rightharpoonup> nat list"
  upload_dir_exists :: bool
  receipts :: "Receipt list"
  deleteImage_calls :: "jsstring list"
  storage_log :: "string list"

record sys_env =
  extname :: "jsstring \<Rightarrow> jsstring"
  uuidv4 :: jsstring
  mkdir_ok :: bool
  writeFile_ok :: bool
  db_uuid :: jsstring
  db_now :: nat
  findOne_ok :: bool
  save_ok :: bool
  remove_ok :: bool

definition uploadDir :: jsstring where
  "uploadDir = js ''uploads''"

definition maxFileSize :: nat where
  "maxFileSize = 10 * 1024 * 1024"

definition allowedExtensions :: "jsstring list" where
  "allowedExtensions = [js ''.jpg'', js ''.jpeg'', js ''.png'']"

definition allowedMimeTypes :: "jsstring list" where
  "allowedMimeTypes = [js ''image/jpeg'', js ''image/jpg'', js ''image/png'']"

text \<open>
  \<open>toLowerCase\<close> on the ASCII letters.  No other code unit becomes one of the letters of
  an allowed extension, so membership in the allow-list is decided as in the source.
\<close>

definition toLowerCase :: "jsstring \<Rightarrow> jsstring" where
  "toLowerCase s = map (\<lambda>c. if isUpper c then c + 32 else c) s"

text \<open>\<open>path.join\<close> of a directory and a file name, without the normalisation of dots.\<close>

definition join_path :: "jsstring \<Rightarrow> jsstring \<Rightarrow> jsstring" where
  "join_path dir name = dir @ js ''/'' @ name"

definition validateFile :: "sys_env \<Rightarrow> upload_file \<Rightarrow> exn + unit" where
  "validateFile env file =
     (if size file > maxFileSize
      then Inl (BadRequestException ''File size exceeds maximum allowed size'')
      else if toLowerCase (extname env (originalname file)) \<notin> set allowedExtensions
      then Inl (BadRequestException ''File extension is not allowed'')
      else if mimetype file \<notin> set allowedMimeTypes
      then Inl (BadRequestException ''MIME type is not allowed'')
      else if buffer file = None \<or> buffer file = Some []
      then Inl (BadRequestException ''File buffer is empty or invalid'')
      else Inr ())"

definition ensureUploadDirectory :: "sys_env \<Rightarrow> world \<Rightarrow> (exn + unit) \<times> world" where
  "ensureUploadDirectory env w =
     (if upload_dir_exists w then (Inr (), w)
      else if mkdir_ok env then (Inr (), w\<lparr>upload_dir_exists := True\<rparr>)
      else (Inl (Error ''mkdir''), w))"

definition generateSecureFilename :: "sys_env \<Rightarrow> jsstring \<Rightarrow> jsstring" where
  "generateSecureFilename env name = uuidv4 env @ toLowerCase (extname env name)"

definition writeFile :: "sys_env \<Rightarrow> jsstring \<Rightarrow> nat list \<Rightarrow> world \<Rightarrow> (exn + unit) \<times> world" where
  "writeFile env filepath content w =
     (if writeFile_ok env then (Inr (), w\<lparr>files := (files w)(filepath \<mapsto> content)\<rparr>)
      else (Inl (Error ''writeFile''), w))"

text \<open>The body of the \<open>try\<close> of \<open>saveImage\<close>, then its \<open>catch\<close>.\<close>

definition saveImage_body :: "sys_env \<Rightarrow> upload_file \<Rightarrow> world \<Rightarrow> (exn + jsstring) \<times> world" where
  "saveImage_body env file w =
     (case validateFile env file of
        Inl e \<Rightarrow> (Inl e, w)
      | Inr _ \<Rightarrow>
          (case ensureUploadDirectory env w of
             (Inl e, w1) \<Rightarrow> (Inl e, w1)
           | (Inr _, w1) \<Rightarrow>
               (let filename = generateSecureFilename env (originalname file);
                    filepath = join_path uploadDir filename
                in case writeFile env filepath (case buffer file of None \<Rightarrow> [] | Some b \<Rightarrow> b) w1 of
                     (Inl e, w2) \<Rightarrow> (Inl e, w2)
                   | (Inr _, w2) \<Rightarrow> (Inr (js ''/uploads/'' @ filename), w2))))"

definition saveImage :: "sys_env \<Rightarrow> upload_file \<Rightarrow> world \<Rightarrow> (exn + jsstring) \<times> world" where
  "saveImage env file w =
     (case saveImage_body env file w of
        (Inl (BadRequestException m), w') \<Rightarrow> (Inl (BadRequestException m), w')
      | (Inl error, w') \<Rightarrow> (Inl (InternalServerErrorException ''Failed to save image file''), w')
      | (Inr url, w') \<Rightarrow> (Inr url, w'))"

text \<open>
  \<open>deleteImage\<close> never throws and removes nothing: it looks the file up and writes one
  line to the log.  The world records the reference of every call.
\<close>

definition deleteImage :: "jsstring \<Rightarrow> world \<Rightarrow> world" where
  "deleteImage imageUrl w =
     (let w = w\<lparr>deleteImage_calls := deleteImage_calls w @ [imageUrl]\<rparr>;
          filename = last (split 47 imageUrl)
      in if filename \<noteq> [] then
           (if files w (join_path uploadDir filename) \<noteq> None
            then w\<lparr>storage_log := storage_log w @ [''Image marked for deletion'']\<rparr>
            else w\<lparr>storage_log := storage_log w @ [''Failed to delete image'']\<rparr>)
         else w)"

section \<open>The receipt service\<close>

definition isValidImageFile :: "upload_file \<Rightarrow> bool" where
  "isValidImageFile file = (mimetype file \<in> set [js ''image/jpeg'', js ''image/jpg'', js ''image/png''])"

definition isValidAiResponse :: "ExtractedReceiptData \<Rightarrow> bool" where
  "isValidAiResponse data =
     (truthy (date data) \<and> truthy (currency data) \<and> truthy (vendor_name data)
      \<and> length (receipt_items data) > 0
      \<and> js_ge (tax data) (Num 0) \<and> js_ge (total data) (Num 0))"

text \<open>\<open>repository.create\<close> and \<open>repository.save\<close>: the database gives the row its identifier.\<close>

definition repo_save :: "sys_env \<Rightarrow> ExtractedReceiptData \<Rightarrow> jsstring \<Rightarrow> world
    \<Rightarrow> (exn + Receipt) \<times> world" where
  "repo_save env d url w =
     (if save_ok env then
        (let receipt = \<lparr>date = date d, currency = currency d, vendor_name = vendor_name d,
               receipt_items = receipt_items d, tax = tax d, total = total d,
               id = db_uuid env, image_url = url,
               created_at = db_now env, updated_at = db_now env\<rparr>
         in (Inr receipt, w\<lparr>receipts := receipts w @ [receipt]\<rparr>))
      else (Inl (Error ''QueryFailedError''), w))"

definition mapToResponseDto :: "Receipt \<Rightarrow> ReceiptResponseDto" where
  "mapToResponseDto receipt =
     \<lparr>date = date receipt, currency = currency receipt, vendor_name = vendor_name receipt,
      receipt_items = receipt_items receipt, tax = tax receipt, total = total receipt,
      id = id receipt, image_url = image_url receipt\<rparr>"

text \<open>
  The final \<open>catch\<close> of the service methods: a client fault passes, and so does a server
  fault where the method lets it; anything else that is caught becomes the method's own
  server fault.
\<close>

definition reclassify :: "bool \<Rightarrow> string \<Rightarrow> exn \<Rightarrow> exn" where
  "reclassify keep_server msg e =
     (case e of
        BadRequestException m \<Rightarrow> e
      | InternalServerErrorException m \<Rightarrow>
          if keep_server then e else InternalServerErrorException msg
      | Error m \<Rightarrow> InternalServerErrorException msg
      | Uncaught m \<Rightarrow> e)"

text \<open>
  Between the extraction and the validation of its result the service logs the vendor
  name, in a template literal, which converts the value to a string.  The vendor name of
  a record can be any JSON value that the structured backend has passed on, and the
  conversion of a JSON value throws a type error in one case: an object with a member
  \<open>toString\<close> of its own.  That member hides \<open>Object.prototype.toString\<close>, is not
  callable, as no JSON value is, and \<open>valueOf\<close> returns no primitive value either.  An
  array is converted by joining the conversions of its elements, \<open>null\<close> counting as the
  empty string.
\<close>

fun ToString_throws :: "json \<Rightarrow> bool" where
  "ToString_throws (JArr xs) = list_ex ToString_throws xs"
| "ToString_throws (JObj kvs) = (map_of kvs (js ''toString'') \<noteq> None)"
| "ToString_throws _ = False"

definition extractReceiptDetails_body :: "sys_env \<Rightarrow> (nat list \<Rightarrow> exn + ExtractedReceiptData)
    \<Rightarrow> upload_file \<Rightarrow> world \<Rightarrow> (exn + ReceiptResponseDto) \<times> world" where
  "extractReceiptDetails_body env aiService imageFile w =
     (if \<not> isValidImageFile imageFile
      then (Inl (BadRequestException
              ''Invalid file type. Only .jpg, .jpeg, .png files are allowed.''), w)
      else
        (case saveImage env imageFile w of
           (Inl e, w1) \<Rightarrow> (Inl e, w1)
         | (Inr imageUrl, w1) \<Rightarrow>
             (case aiService (case buffer imageFile of None \<Rightarrow> [] | Some b \<Rightarrow> b) of
                Inl e \<Rightarrow> (Inl e, w1)
              | Inr extractedData \<Rightarrow>
                  if ToString_throws (vendor_name extractedData)
                  then (Inl (Error ''TypeError''), w1)
                  else if \<not> isValidAiResponse extractedData
                  then (Inl (InternalServerErrorException
                          ''AI model returned invalid or incomplete data.''),
                        deleteImage imageUrl w1)
                  else
                    (case repo_save env extractedData imageUrl w1 of
                       (Inl e, w2) \<Rightarrow> (Inl e, w2)
                     | (Inr savedReceipt, w2) \<Rightarrow> (Inr (mapToResponseDto savedReceipt), w2)))))"

definition extractReceiptDetails :: "sys_env \<Rightarrow> (nat list \<Rightarrow> exn + ExtractedReceiptData)
    \<Rightarrow> upload_file \<Rightarrow> world \<Rightarrow> (exn + ReceiptResponseDto) \<times> world" where
  "extractReceiptDetails env aiService imageFile w =
     (case extractReceiptDetails_body env aiService imageFile w of
        (Inl error, w') \<Rightarrow>
          (Inl (reclassify True ''Failed to extract receipt details.'' error), w')
      | (Inr dto, w') \<Rightarrow> (Inr dto, w'))"

text \<open>\<open>findOne\<close> by identifier and \<open>remove\<close> of the row found.\<close>

definition repo_findOne :: "sys_env \<Rightarrow> jsstring \<Rightarrow> world \<Rightarrow> exn + Receipt option" where
  "repo_findOne env rid w =
     (if findOne_ok env then Inr (find (\<lambda>r. id r = rid) (receipts w))
      else Inl (Error ''QueryFailedError''))"

definition repo_remove :: "sys_env \<Rightarrow> Receipt \<Rightarrow> world \<Rightarrow> (exn + unit) \<times> world" where
  "repo_remove env receipt w =
     (if remove_ok env
      then (Inr (), w\<lparr>receipts := filter (\<lambda>r. id r \<noteq> id receipt) (receipts w)\<rparr>)
      else (Inl (Error ''QueryFailedError''), w))"

definition deleteReceipt_body :: "sys_env \<Rightarrow> jsstring \<Rightarrow> world \<Rightarrow> (exn + unit) \<times> world" where
  "deleteReceipt_body env rid w =
     (case repo_findOne env rid w of
        Inl e \<Rightarrow> (Inl e, w)
      | Inr None \<Rightarrow> (Inl (BadRequestException ''Receipt not found.''), w)
      | Inr (Some receipt) \<Rightarrow> repo_remove env receipt (deleteImage (image_url receipt) w))"

definition deleteReceipt :: "sys_env \<Rightarrow> jsstring \<Rightarrow> world \<Rightarrow> (exn + unit) \<times> world" where
  "deleteReceipt env rid w =
     (case deleteReceipt_body env rid w of
        (Inl error, w') \<Rightarrow> (Inl (reclassify False ''Failed to delete receipt.'' error), w')
      | (Inr u, w') \<Rightarrow> (Inr u, w'))"

section \<open>Notions used in the proofs\<close>

text \<open>A matcher only ever moves forward: what is left is a suffix of what was left.\<close>

definition consumed :: "mstate \<Rightarrow> mstate \<Rightarrow> bool" where
  "consumed st st' = (\<exists>ys. snd st = ys @ snd st')"

text \<open>The code unit before a position, given the one before the text and the text so far.\<close>

definition prev_unit :: "nat option \<Rightarrow> jsstring \<Rightarrow> nat option" where
  "prev_unit p pre = (if pre = [] then p else Some (last pre))"

text \<open>A call has ended the process.\<close>

definition uncaught :: "exn + 'a \<Rightarrow> bool" where
  "uncaught r = (case r of Inl (Uncaught m) \<Rightarrow> True | _ \<Rightarrow> False)"

text \<open>
  What the coercion step makes of one element of \<open>receipt_items\<close>: the name is kept when
  it is a non-empty string and is \<open>Unknown Item\<close> when it is missing or falsy; the cost is
  kept when it is a number and is 0 otherwise.
\<close>

definition falsy_or_missing :: "exn + json option \<Rightarrow> bool" where
  "falsy_or_missing p = (p = Inr None \<or> (\<exists>x. p = Inr (Some x) \<and> \<not> truthy x))"

definition item_coerced :: "json \<Rightarrow> receipt_item \<Rightarrow> bool" where
  "item_coerced x i =
     ((falsy_or_missing (get_prop x ''item_name'') \<longrightarrow> item_name i = JStr (js ''Unknown Item''))
      \<and> (\<forall>s. get_prop x ''item_name'' = Inr (Some (JStr s)) \<and> s \<noteq> [] \<longrightarrow> item_name i = JStr s)
      \<and> (\<forall>n. get_prop x ''item_cost'' = Inr (Some (JNum n)) \<longrightarrow> item_cost i = Num n)
      \<and> ((\<forall>n. get_prop x ''item_cost'' \<noteq> Inr (Some (JNum n))) \<longrightarrow> item_cost i = Num 0))"

text \<open>
  A word occurs in a text as a whole word when it is there and the code units next to it,
  if any, are not word characters.  This is stated on the text itself, without the
  matcher.
\<close>

definition word_at :: "nat option \<Rightarrow> jsstring \<Rightarrow> jsstring \<Rightarrow> bool" where
  "word_at p w xs = (take (length w) xs = w \<and> \<not> is_word_opt p
     \<and> \<not> is_word_opt (next_unit (drop (length w) xs)))"

fun has_word_from :: "nat option \<Rightarrow> jsstring \<Rightarrow> jsstring \<Rightarrow> bool" where
  "has_word_from p w [] = word_at p w []"
| "has_word_from p w (x # xs) = (word_at p w (x # xs) \<or> has_word_from (Some x) w xs)"

definition has_word :: "string \<Rightarrow> jsstring \<Rightarrow> bool" where
  "has_word w text = has_word_from None (js w) text"

text \<open>A match of an expression starts at position \<open>n\<close> of a text.\<close>

definition match_starts :: "bool \<Rightarrow> re \<Rightarrow> jsstring \<Rightarrow> nat \<Rightarrow> bool" where
  "match_starts ci r text n = (rm ci r (prev_unit None (take n text), drop n text) \<noteq> [])"

section \<open>Sample inputs\<close>

definition clock0 :: clock where
  "clock0 = \<lparr>iso_date = js ''2024-01-15'', locale_date = js ''1/15/2024''\<rparr>"

text \<open>An environment in which both remote backends are configured and every backend fails.\<close>

definition failing_env :: ai_env where
  "failing_env = \<lparr>openaiClient = True, visionClient = True,
     gpt_content = (\<lambda>b. Inl (Error ''timeout'')),
     JSON_parse = (\<lambda>s. None),
     vision_text = (\<lambda>b. Inl (Error ''unavailable'')),
     tesseract_text = (\<lambda>b. Inl (Error ''worker crashed'')),
     clk = clock0\<rparr>"

text \<open>
  An environment without remote clients in which the OCR worker cannot read the image and
  the library throws its error outside the promise.
\<close>

definition unreadable_env :: ai_env where
  "unreadable_env = \<lparr>openaiClient = False, visionClient = False,
     gpt_content = (\<lambda>b. Inl (Error ''unavailable'')),
     JSON_parse = (\<lambda>s. None),
     vision_text = (\<lambda>b. Inl (Error ''unavailable'')),
     tesseract_text = (\<lambda>b. Inl (Uncaught ''Error attempting to read image.'')),
     clk = clock0\<rparr>"

text \<open>
  For the samples, \<open>path.extname\<close> is the part of the name from its last dot on, which
  is what it returns for a plain file name.
\<close>

fun simple_extname :: "jsstring \<Rightarrow> jsstring" where
  "simple_extname [] = []"
| "simple_extname (c # cs) =
     (if 46 \<in> set cs then simple_extname cs else if c = 46 then c # cs else [])"

definition sample_env :: sys_env where
  "sample_env = \<lparr>extname = simple_extname, uuidv4 = js ''0b7e'', mkdir_ok = True,
     writeFile_ok = True, db_uuid = js ''r-1'', db_now = 1700000000, findOne_ok = True,
     save_ok = True, remove_ok = True\<rparr>"

definition empty_world :: world where
  "empty_world = \<lparr>files = Map.empty, upload_dir_exists = False, receipts = [],
     deleteImage_calls = [], storage_log = []\<rparr>"

definition pdf_file :: upload_file where
  "pdf_file = \<lparr>originalname = js ''test-receipt.pdf'', mimetype = js ''application/pdf'',
     size = 1024, buffer = Some [37, 80, 68, 70]\<rparr>"

definition jpeg_file :: upload_file where
  "jpeg_file = \<lparr>originalname = js ''test-receipt.jpg'', mimetype = js ''image/jpeg'',
     size = 1024, buffer = Some [255, 216, 255]\<rparr>"

text \<open>An upload that passes every check of the file store and is no image.\<close>

definition garbage_file :: upload_file where
  "garbage_file = \<lparr>originalname = js ''receipt.jpg'', mimetype = js ''image/jpeg'',
     size = 3, buffer = Some [1, 2, 3]\<rparr>"

text \<open>A structured backend that answers with a negative tax.\<close>

definition negative_tax_json :: json where
  "negative_tax_json = JObj
     [(js ''date'', JStr (js ''2024-01-15'')), (js ''currency'', JStr (js ''USD'')),
      (js ''vendor_name'', JStr (js ''Test Store'')),
      (js ''receipt_items'', JArr [JObj [(js ''item_name'', JStr (js ''Test Item'')),
                                        (js ''item_cost'', JNum (fl (1099 / 100)))]]),
      (js ''tax'', JNum (fl (- 11 / 10))), (js ''total'', JNum (fl (1209 / 100)))]"

definition negative_tax_env :: ai_env where
  "negative_tax_env = \<lparr>openaiClient = True, visionClient = False,
     gpt_content = (\<lambda>b. Inr (Some (js ''{...}''))),
     JSON_parse = (\<lambda>s. Some negative_tax_json),
     vision_text = (\<lambda>b. Inl (Error ''unavailable'')),
     tesseract_text = (\<lambda>b. Inl (Error ''worker crashed'')),
     clk = clock0\<rparr>"

text \<open>
  A structured backend that answers with a negative tax and with a vendor name that is an
  object with a member \<open>toString\<close>.
\<close>

definition unprintable_vendor_json :: json where
  "unprintable_vendor_json = JObj
     [(js ''date'', JStr (js ''2024-01-15'')), (js ''currency'', JStr (js ''USD'')),
      (js ''vendor_name'', JObj [(js ''toString'', JNull)]),
      (js ''receipt_items'', JArr [JObj [(js ''item_name'', JStr (js ''Test Item'')),
                                        (js ''item_cost'', JNum (fl (1099 / 100)))]]),
      (js ''tax'', JNum (- 1)), (js ''total'', JNum (fl (1209 / 100)))]"

definition unprintable_vendor_env :: ai_env where
  "unprintable_vendor_env = \<lparr>openaiClient = True, visionClient = False,
     gpt_content = (\<lambda>b. Inr (Some (js ''{...}''))),
     JSON_parse = (\<lambda>s. Some unprintable_vendor_json),
     vision_text = (\<lambda>b. Inl (Error ''unavailable'')),
     tesseract_text = (\<lambda>b. Inl (Error ''worker crashed'')),
     clk = clock0\<rparr>"

text \<open>A world with one stored record and its image.\<close>

definition stored_receipt :: Receipt where
  "stored_receipt = \<lparr>date = JStr (js ''2024-01-15''), currency = JStr (js ''USD''),
     vendor_name = JStr (js ''Test Store''),
     receipt_items = [\<lparr>item_name = JStr (js ''Test Item''), item_cost = Num (fl (1099 / 100))\<rparr>],
     tax = Num (fl (11 / 10)), total = Num (fl (1209 / 100)),
     id = js ''r-1'', image_url = js ''/uploads/test-image.jpg'',
     created_at = 1700000000, updated_at = 1700000000\<rparr>"

definition one_receipt_world :: world where
  "one_receipt_world = \<lparr>files = [js ''uploads/test-image.jpg'' \<mapsto> [255, 216, 255]],
     upload_dir_exists = True, receipts = [stored_receipt],
     deleteImage_calls = [], storage_log = []\<rparr>"

text \<open>
  A structured answer without date, vendor name and total, with a null currency, and with
  one item that has no name.
\<close>

definition partial_json :: json where
  "partial_json = JObj
     [(js ''currency'', JNull),
      (js ''receipt_items'',
         JArr [JObj [(js ''item_name'', JStr (js ''Item 1'')), (js ''item_cost'', JNum (fl (1099 / 100)))],
               JObj [(js ''item_cost'', JNum (fl (550 / 100)))]]),
      (js ''tax'', JNum (fl (165 / 100)))]"

definition partial_record :: ExtractedReceiptData where
  "partial_record = \<lparr>date = JStr (js ''2024-01-15''), currency = JStr (js ''USD''),
     vendor_name = JStr (js ''Unknown Vendor''),
     receipt_items = [\<lparr>item_name = JStr (js ''Item 1''), item_cost = Num (fl (1099 / 100))\<rparr>,
                      \<lparr>item_name = JStr (js ''Unknown Item''), item_cost = Num (fl (550 / 100))\<rparr>],
     tax = Num (fl (165 / 100)), total = Num (fl (1814 / 100))\<rparr>"

definition test_store_text :: jsstring where
  "test_store_text =
     js ''Test Store\<newline>123 Main St\<newline>Date: 2024-01-15\<newline>Item: Test Item $10.99''"




section \<open>The orchestrator and the OCR worker\<close>

lemma try_catch_cases:
  "try_catch m h = (if uncaught m then m else case m of Inl e \<Rightarrow> h e | Inr x \<Rightarrow> Inr x)"
  by (auto simp: try_catch_def uncaught_def split: sum.splits exn.splits)

lemma uncaught_and_then_Inr:
  "uncaught (and_then m (\<lambda>x. Inr (f x))) = uncaught m"
  by (auto simp: uncaught_def and_then_def split: sum.splits exn.splits)

lemma extractWithGpt4Vision_settles:
  "\<not> uncaught (gpt_content env img) \<Longrightarrow> \<not> uncaught (extractWithGpt4Vision env img)"
  by (auto simp: extractWithGpt4Vision_def try_catch_def uncaught_def and_then_def
        gpt_parse_step_def split: sum.splits exn.splits option.splits)

lemma extractWithVisionApi_settles:
  "\<not> uncaught (vision_text env img) \<Longrightarrow> \<not> uncaught (extractWithVisionApi env img)"
  by (auto simp: extractWithVisionApi_def try_catch_def uncaught_def and_then_def
        split: sum.splits exn.splits)

lemma attempt_settles:
  "\<not> uncaught r \<Longrightarrow> \<exists>x. attempt client r = Inr x"
  by (auto simp: attempt_def try_catch_def uncaught_def and_then_def
        split: sum.splits exn.splits)

lemma attempt_None:
  "\<not> client \<or> isl r \<Longrightarrow> \<not> uncaught r \<Longrightarrow> attempt client r = Inr None"
  by (auto simp: attempt_def try_catch_def uncaught_def and_then_def isl_def
        split: sum.splits exn.splits)

lemma fallbackParsing_returns:
  "\<not> uncaught (tesseract_text env img) \<Longrightarrow> \<exists>r. fallbackParsing env img = Inr r"
  by (auto simp: fallbackParsing_def try_catch_def uncaught_def and_then_def
        split: sum.splits exn.splits)

lemma fallbackParsing_rejected:
  "isl (tesseract_text env img) \<Longrightarrow> \<not> uncaught (tesseract_text env img) \<Longrightarrow>
   fallbackParsing env img = Inr (ocr_failed_record (clk env))"
  by (auto simp: fallbackParsing_def try_catch_def uncaught_def and_then_def isl_def
        split: sum.splits exn.splits)

text \<open>
  As long as no collaborator throws outside its promise, \<open>extractReceiptData\<close> returns a
  record for every image, and when every backend that is attempted fails and the promise
  of the OCR call is rejected, that record is the fixed minimal one.
\<close>

lemma extractReceiptData_settled:
  assumes g: "\<not> uncaught (gpt_content env img)"
      and v: "\<not> uncaught (vision_text env img)"
      and t: "\<not> uncaught (tesseract_text env img)"
  shows "\<exists>r. extractReceiptData env img = Inr r"
    and "(\<not> openaiClient env \<or> isl (extractWithGpt4Vision env img)) \<and>
         (\<not> visionClient env \<or> isl (extractWithVisionApi env img)) \<and>
         isl (tesseract_text env img) \<Longrightarrow>
         extractReceiptData env img =
           Inr \<lparr>date = JStr (locale_date (clk env)), currency = JStr (js ''USD''),
                vendor_name = JStr (js ''Unknown Vendor (OCR failed)''),
                receipt_items = [\<lparr>item_name = JStr (js ''Receipt Items''), item_cost = Num 0\<rparr>],
                tax = Num 0, total = Num 0\<rparr>"
proof -
  obtain r where r: "fallbackParsing env img = Inr r"
    using fallbackParsing_returns [OF t] by blast
  obtain a where a: "attempt (openaiClient env) (extractWithGpt4Vision env img) = Inr a"
    using attempt_settles [OF extractWithGpt4Vision_settles [OF g]] by blast
  obtain b where b: "attempt (visionClient env) (extractWithVisionApi env img) = Inr b"
    using attempt_settles [OF extractWithVisionApi_settles [OF v]] by blast
  show "\<exists>r. extractReceiptData env img = Inr r"
    by (simp add: extractReceiptData_def a b r try_catch_def and_then_def split: option.splits)
next
  assume f: "(\<not> openaiClient env \<or> isl (extractWithGpt4Vision env img)) \<and>
         (\<not> visionClient env \<or> isl (extractWithVisionApi env img)) \<and>
         isl (tesseract_text env img)"
  have a: "attempt (openaiClient env) (extractWithGpt4Vision env img) = Inr None"
    using f extractWithGpt4Vision_settles [OF g] by (simp add: attempt_None)
  have b: "attempt (visionClient env) (extractWithVisionApi env img) = Inr None"
    using f extractWithVisionApi_settles [OF v] by (simp add: attempt_None)
  have r: "fallbackParsing env img = Inr (ocr_failed_record (clk env))"
    using f t by (simp add: fallbackParsing_rejected)
  show "extractReceiptData env img =
           Inr \<lparr>date = JStr (locale_date (clk env)), currency = JStr (js ''USD''),
                vendor_name = JStr (js ''Unknown Vendor (OCR failed)''),
                receipt_items = [\<lparr>item_name = JStr (js ''Receipt Items''), item_cost = Num 0\<rparr>],
                tax = Num 0, total = Num 0\<rparr>"
    by (simp add: extractReceiptData_def a b r try_catch_def and_then_def ocr_failed_record_def)
qed

text \<open>
  Claim C1 says that \<open>extractReceiptData\<close> never fails, for any image bytes.  The
  \<open>catch\<close> of \<open>fallbackParsing\<close> is there to answer a failure of the OCR pass with the
  fixed record, and it does so when the promise of \<open>Tesseract.recognize\<close> is rejected.
  An error of the OCR worker does not stop there: the call is made without an
  \<open>errorHandler\<close>, the library throws the error outside the promise, and no \<open>catch\<close>
  of the service sees it.  With no remote client configured and the three bytes
  \<open>1, 2, 3\<close>, which are no image, no record is returned, and the same bytes reach the
  OCR pass through an upload that passes every check of the file store.
\<close>

theorem extractReceiptData_unreadable_image:
  "extractReceiptData unreadable_env [1, 2, 3] = Inl (Uncaught ''Error attempting to read image.'') \<and>
   validateFile sample_env garbage_file = Inr () \<and>
   fst (extractReceiptDetails sample_env (extractReceiptData unreadable_env) garbage_file
          empty_world) = Inl (Uncaught ''Error attempting to read image.'')"
proof -
  have a: "extractReceiptData unreadable_env [1, 2, 3] = Inl (Uncaught ''Error attempting to read image.'')"
    by (simp add: extractReceiptData_def unreadable_env_def attempt_def fallbackParsing_def
        try_catch_def and_then_def)
  have b: "validateFile sample_env garbage_file = Inr ()"
    by code_simp
  have c: "fst (extractReceiptDetails sample_env (extractReceiptData unreadable_env) garbage_file
          empty_world) = Inl (Uncaught ''Error attempting to read image.'')"
    by code_simp
  show ?thesis using a b c by simp
qed

section \<open>Rounding to a double\<close>

lemma pow2_powi: "pow2 e = 2 powi e"
  by (simp add: pow2_def power_int_def inverse_eq_divide power_one_over)

lemma pow2_pos: "0 < pow2 e"
  by (simp add: pow2_powi)

lemma pow2_add: "pow2 (a + b) = pow2 a * pow2 b"
  by (simp add: pow2_powi power_int_add)

lemma pow2_diff: "pow2 (a - b) = pow2 a / pow2 b"
  by (simp add: pow2_powi power_int_diff)

lemma pow2_nat: "0 \<le> e \<Longrightarrow> pow2 e = 2 ^ nat e"
  by (simp add: pow2_def)

lemma bitlen_nonneg: "0 \<le> bitlen n"
proof (induction n rule: bitlen.induct)
  case (1 n)
  show ?case by (subst bitlen.simps) (use 1 in auto)
qed

lemma bitlen_bounds:
  "0 < n \<Longrightarrow> 2 ^ nat (bitlen n - 1) \<le> n \<and> n < 2 ^ nat (bitlen n)"
proof (induction n rule: bitlen.induct)
  case (1 n)
  show ?case
  proof (cases "n div 2 = 0")
    case True
    with 1 have n: "n = 1" by presburger
    have "bitlen 1 = 1" by code_simp
    then show ?thesis using n by simp
  next
    case False
    with 1 have pos: "0 < n div 2" by presburger
    have b: "bitlen n = 1 + bitlen (n div 2)" by (subst bitlen.simps) (use 1 in simp)
    have ih: "2 ^ nat (bitlen (n div 2) - 1) \<le> n div 2 \<and> n div 2 < 2 ^ nat (bitlen (n div 2))"
      using 1 pos by simp
    have bp: "0 < bitlen (n div 2)"
      using pos bitlen_nonneg [of "n div 2 div 2"] by (subst bitlen.simps) simp
    have e1: "nat (bitlen n - 1) = Suc (nat (bitlen (n div 2) - 1))"
      using b bp by simp
    have e2: "nat (bitlen n) = Suc (nat (bitlen (n div 2)))"
      using b bp by simp
    show ?thesis unfolding e1 e2 using ih by (simp; presburger)
  qed
qed



text \<open>With the lower bound, this makes \<open>ilog2\<close> the exponent of a positive number.\<close>

lemma ilog2_less:
  assumes "0 < x"
  shows "x < pow2 (ilog2 x + 1)"
proof -
  obtain p q where pq: "quotient_of x = (p, q)" by (cases "quotient_of x")
  have q: "0 < q" using pq by (rule quotient_of_denom_pos)
  have x: "x = of_int p / of_int q" using pq by (rule quotient_of_div)
  have p: "0 < p" using assms q unfolding x by (simp add: zero_less_divide_iff)
  let ?d = "bitlen p - bitlen q"
  have up: "x < pow2 (?d + 1)"
  proof -
    have bp: "of_int p < pow2 (bitlen p)"
    proof -
      have "p < (2::int) ^ nat (bitlen p)" using bitlen_bounds [OF p] by simp
      then have "(of_int p :: rat) < of_int ((2::int) ^ nat (bitlen p))"
        by (simp only: of_int_less_iff)
      then show ?thesis using bitlen_nonneg [of p] by (simp add: pow2_nat)
    qed
    have bq: "pow2 (bitlen q - 1) \<le> of_int q"
    proof -
      have "(2::int) ^ nat (bitlen q - 1) \<le> q" using bitlen_bounds [OF q] by simp
      then have "(of_int ((2::int) ^ nat (bitlen q - 1)) :: rat) \<le> of_int q"
        by (simp only: of_int_le_iff)
      moreover have "0 \<le> bitlen q - 1"
        using q bitlen_nonneg [of "q div 2"] by (subst bitlen.simps) simp
      ultimately show ?thesis by (simp add: pow2_nat)
    qed
    have "x = of_int p / of_int q" by (rule x)
    also have "\<dots> < pow2 (bitlen p) / of_int q"
      using bp q by (simp add: divide_strict_right_mono)
    also have "\<dots> \<le> pow2 (bitlen p) / pow2 (bitlen q - 1)"
      using bq pow2_pos [of "bitlen q - 1"] pow2_pos [of "bitlen p"] by (simp add: frac_le)
    also have "\<dots> = pow2 (?d + 1)"
      by (simp add: pow2_diff [symmetric] algebra_simps)
    finally show ?thesis .
  qed
  show ?thesis
  proof (cases "pow2 ?d \<le> x")
    case True
    then show ?thesis using up pq by (simp add: ilog2_def Let_def)
  next
    case False
    then show ?thesis using pq by (simp add: ilog2_def Let_def)
  qed
qed



lemma fl_zero: "fl 0 = 0"
  by (simp add: fl_def)







section \<open>The matcher\<close>

lemma consumed_refl: "consumed st st"
  by (simp add: consumed_def)

lemma consumed_trans: "consumed a b \<Longrightarrow> consumed b c \<Longrightarrow> consumed a c"
  by (auto simp: consumed_def)


lemma star_consumed:
  assumes f: "\<And>a b. b \<in> set (f a) \<Longrightarrow> consumed a b"
  shows "st' \<in> set (star n f st) \<Longrightarrow> consumed st st'"
proof (induction n arbitrary: st)
  case 0
  then show ?case by (simp add: consumed_refl)
next
  case (Suc n)
  then have "st' = st \<or> (\<exists>a \<in> set (f st). st' \<in> set (star n f a))"
    by auto
  then show ?case using Suc.IH f consumed_refl consumed_trans by blast
qed

lemma rep_consumed:
  assumes f: "\<And>a b. b \<in> set (f a) \<Longrightarrow> consumed a b"
  shows "st' \<in> set (rep lo hi f st) \<Longrightarrow> consumed st st'"
proof (induction hi arbitrary: lo st)
  case 0
  then show ?case by (simp add: consumed_refl split: if_splits)
next
  case (Suc hi)
  then have "st' = st \<or> (\<exists>a \<in> set (f st). st' \<in> set (rep (lo - 1) hi f a))"
    by (auto split: if_splits)
  then show ?case using Suc.IH f consumed_refl consumed_trans by blast
qed

lemma rm_consumed:
  "st' \<in> set (rm ci r st) \<Longrightarrow> consumed st st'"
proof (induction r arbitrary: st st')
  case (Seq a b)
  then obtain mid where "mid \<in> set (rm ci a st)" "st' \<in> set (rm ci b mid)"
    by auto
  then show ?case using Seq.IH consumed_trans by blast
next
  case (Star a)
  then show ?case using star_consumed [of "rm ci a"] by simp
next
  case (Rep lo hi a)
  then show ?case using rep_consumed [of "rm ci a"] by simp
next
  case (Chr c)
  then show ?case
    by (cases st) (auto simp: consumed_def split: list.splits if_splits)
next
  case (Cls items)
  then show ?case
    by (cases st) (auto simp: consumed_def split: list.splits if_splits)
next
  case (Alt a b)
  from Alt.prems have "st' \<in> set (rm ci a st) \<or> st' \<in> set (rm ci b st)" by simp
  then show ?case using Alt.IH by blast
next
  case (Opt a)
  from Opt.prems have "st' = st \<or> st' \<in> set (rm ci a st)" by auto
  then show ?case using Opt.IH consumed_refl by blast
qed (auto simp: consumed_refl split: if_splits)

lemma search_Some:
  "search ci r p xs = Some (pre, m, post) \<Longrightarrow>
     xs = pre @ m @ post \<and> rm ci r (prev_unit p pre, m @ post) \<noteq> []
     \<and> snd (hd (rm ci r (prev_unit p pre, m @ post))) = post"
proof (induction xs arbitrary: p pre)
  case Nil
  show ?case
  proof (cases "rm ci r (p, [])")
    case Nil
    with Nil.prems show ?thesis by simp
  next
    case (Cons st sts)
    then have "consumed (p, []) st" using rm_consumed [of st ci r "(p, [])"] by simp
    then have "snd st = []" by (simp add: consumed_def)
    with Cons Nil.prems show ?thesis by (auto simp: prev_unit_def)
  qed
next
  case (Cons x xs)
  show ?case
  proof (cases "rm ci r (p, x # xs)")
    case Nil
    with Cons.prems obtain pre' where s: "search ci r (Some x) xs = Some (pre', m, post)"
      and pre: "pre = x # pre'"
      by auto
    from Cons.IH [OF s] pre show ?thesis by (auto simp: prev_unit_def)
  next
    case (Cons st sts)
    then have "consumed (p, x # xs) st" using rm_consumed [of st ci r "(p, x # xs)"] by simp
    then obtain ys where ys: "x # xs = ys @ snd st" by (auto simp: consumed_def)
    from Cons Cons.prems have pre: "pre = []"
      and m: "m = take (length (x # xs) - length (snd st)) (x # xs)"
      and post: "post = snd st" by auto
    have "m = ys" using m ys
      by (metis add_diff_cancel_right' append_eq_conv_conj length_append)
    then show ?thesis using pre post ys Cons by (simp add: prev_unit_def)
  qed
qed

lemma search_None:
  "search ci r p (a @ b) = None \<Longrightarrow> rm ci r (prev_unit p a, b) = []"
proof (induction a arbitrary: p)
  case Nil
  then show ?case by (cases b) (auto simp: prev_unit_def split: list.splits)
next
  case (Cons x a)
  then have "rm ci r (p, x # a @ b) = []" and "search ci r (Some x) (a @ b) = None"
    by (auto split: list.splits)
  with Cons.IH [of "Some x"] show ?case by (auto simp: prev_unit_def)
qed

lemma search_NoneI:
  "(\<And>a b. xs = a @ b \<Longrightarrow> rm ci r (prev_unit p a, b) = []) \<Longrightarrow> search ci r p xs = None"
proof (induction xs arbitrary: p)
  case Nil
  then show ?case by (auto simp: prev_unit_def)
next
  case (Cons x xs)
  have 0: "rm ci r (p, x # xs) = []" using Cons.prems [of "[]" "x # xs"] by (simp add: prev_unit_def)
  have "search ci r (Some x) xs = None"
  proof (rule Cons.IH)
    fix a b assume "xs = a @ b"
    then have "x # xs = (x # a) @ b" by simp
    from Cons.prems [OF this] show "rm ci r (prev_unit (Some x) a, b) = []"
      by (cases "a = []") (simp_all add: prev_unit_def)
  qed
  with 0 show ?case by simp
qed

section \<open>White space and character classes\<close>






lemma in_class_Digit: "in_class ci [Digit] c = isDigit c"
  by (auto simp: in_class_def isDigit_def isLower_def isUpper_def)

section \<open>Vendor name, currency and price tokens\<close>




lemma search_Some_append:
  "search ci r p xs = Some (pre, m, post) \<Longrightarrow> xs = pre @ m @ post"
  using search_Some by blast




lemma js_nonempty: "cs \<noteq> [] \<Longrightarrow> js cs \<noteq> []"
  by (simp add: js_def)













section \<open>Items and totals\<close>






section \<open>The text parser always returns a well-formed record\<close>


section \<open>Uploads that are rejected\<close>

lemma saveImage_BadRequest_world:
  "validateFile env f = Inl e \<Longrightarrow> saveImage env f w = (Inl e, w)"
  by (auto simp: saveImage_def saveImage_body_def validateFile_def split: if_splits)

lemma validateFile_rejects:
  assumes "size f > maxFileSize \<or> mimetype f \<notin> set allowedMimeTypes
           \<or> toLowerCase (extname env (originalname f)) \<notin> set allowedExtensions
           \<or> buffer f = None \<or> buffer f = Some []"
  shows "\<exists>msg. validateFile env f = Inl (BadRequestException msg)"
  using assms by (auto simp: validateFile_def)

text \<open>
  Claim C7.  An upload that violates a validation rule (its declared size exceeds the
  maximum, its MIME type is not in the allow-list, its extension is not in the allow-list,
  or its buffer is missing or empty) is answered by a client fault, and the world is left
  as it was: no image is written and no record is stored.
\<close>

theorem invalid_upload_rejected:
  assumes "size f > maxFileSize \<or> mimetype f \<notin> set allowedMimeTypes
           \<or> toLowerCase (extname env (originalname f)) \<notin> set allowedExtensions
           \<or> buffer f = None \<or> buffer f = Some []"
  shows "(\<exists>msg. fst (extractReceiptDetails env ai f w) = Inl (BadRequestException msg)) \<and>
         files (snd (extractReceiptDetails env ai f w)) = files w \<and>
         receipts (snd (extractReceiptDetails env ai f w)) = receipts w \<and>
         snd (extractReceiptDetails env ai f w) = w"
proof (cases "isValidImageFile f")
  case False
  then show ?thesis
    by (simp add: extractReceiptDetails_def extractReceiptDetails_body_def reclassify_def)
next
  case True
  from validateFile_rejects [OF assms] obtain msg where
    "validateFile env f = Inl (BadRequestException msg)" by blast
  then have "saveImage env f w = (Inl (BadRequestException msg), w)"
    by (rule saveImage_BadRequest_world)
  then show ?thesis using True
    by (simp add: extractReceiptDetails_def extractReceiptDetails_body_def reclassify_def)
qed

theorem invalid_upload_rejected_witness:
  "mimetype pdf_file \<notin> set allowedMimeTypes \<and>
   fst (extractReceiptDetails sample_env (extractReceiptData failing_env) pdf_file empty_world) =
     Inl (BadRequestException ''Invalid file type. Only .jpg, .jpeg, .png files are allowed.'') \<and>
   snd (extractReceiptDetails sample_env (extractReceiptData failing_env) pdf_file empty_world) =
     empty_world"
proof -
  have h: "mimetype pdf_file \<notin> set allowedMimeTypes"
    by (simp add: pdf_file_def allowedMimeTypes_def js_def)
  have e: "isValidImageFile pdf_file = False"
    by (simp add: isValidImageFile_def pdf_file_def js_def)
  show ?thesis
    using h invalid_upload_rejected [of pdf_file sample_env "extractReceiptData failing_env" empty_world]
    by (simp add: extractReceiptDetails_def extractReceiptDetails_body_def reclassify_def e)
qed

section \<open>Cleaning up after an invalid record\<close>

lemma saveImage_ok:
  assumes "saveImage env f w = (Inr url, w1)"
  shows "mimetype f \<in> set allowedMimeTypes \<and> receipts w1 = receipts w
         \<and> deleteImage_calls w1 = deleteImage_calls w"
  using assms
  by (auto simp: saveImage_def saveImage_body_def validateFile_def ensureUploadDirectory_def
        writeFile_def Let_def split: if_splits sum.splits prod.splits exn.splits)

lemma deleteImage_effect:
  "deleteImage_calls (deleteImage url w) = deleteImage_calls w @ [url]
   \<and> receipts (deleteImage url w) = receipts w \<and> files (deleteImage url w) = files w
   \<and> upload_dir_exists (deleteImage url w) = upload_dir_exists w"
  by (simp add: deleteImage_def Let_def)

text \<open>
  Claim C8 says that every record which fails \<open>isValidAiResponse\<close> after a successful
  save is answered by one call of \<open>deleteImage\<close> and the server fault of the validation.
  Before the validation the service logs the vendor name of the record.  When the
  structured backend has passed on a vendor name that is an object with a member
  \<open>toString\<close>, next to a negative tax, the log statement throws: the validation and the
  cleanup are not reached, the fault is the general one of the method, and the saved
  image stays.
\<close>

theorem unprintable_vendor_counterexample:
  "extractReceiptData unprintable_vendor_env [255, 216, 255] =
     Inr \<lparr>date = JStr (js ''2024-01-15''), currency = JStr (js ''USD''),
          vendor_name = JObj [(js ''toString'', JNull)],
          receipt_items = [\<lparr>item_name = JStr (js ''Test Item''), item_cost = Num (fl (1099 / 100))\<rparr>],
          tax = Num (- 1), total = Num (fl (1209 / 100))\<rparr> \<and>
   \<not> isValidAiResponse
       \<lparr>date = JStr (js ''2024-01-15''), currency = JStr (js ''USD''),
        vendor_name = JObj [(js ''toString'', JNull)],
        receipt_items = [\<lparr>item_name = JStr (js ''Test Item''), item_cost = Num (fl (1099 / 100))\<rparr>],
        tax = Num (- 1), total = Num (fl (1209 / 100))\<rparr> \<and>
   fst (extractReceiptDetails sample_env (extractReceiptData unprintable_vendor_env) jpeg_file
          empty_world) =
     Inl (InternalServerErrorException ''Failed to extract receipt details.'') \<and>
   deleteImage_calls (snd (extractReceiptDetails sample_env
     (extractReceiptData unprintable_vendor_env) jpeg_file empty_world)) = [] \<and>
   files (snd (extractReceiptDetails sample_env
     (extractReceiptData unprintable_vendor_env) jpeg_file empty_world)) (js ''uploads/0b7e.jpg'') =
     Some [255, 216, 255]"
  by code_simp

text \<open>
  Claim C8, amended.  When the image has been saved under a reference and the record that
  the extraction returns has a vendor name that converts to a string (every string does)
  and fails \<open>isValidAiResponse\<close> (a negative tax, for one), the pipeline calls
  \<open>deleteImage\<close> once, with that reference, fails with the server fault of the
  validation, and stores no record.
\<close>

theorem invalid_record_cleanup:
  assumes save: "saveImage env f w = (Inr url, w1)"
      and ai: "ai (case buffer f of None \<Rightarrow> [] | Some b \<Rightarrow> b) = Inr d"
      and conv: "\<not> ToString_throws (vendor_name d)"
      and bad: "\<not> isValidAiResponse d"
  shows "fst (extractReceiptDetails env ai f w) =
           Inl (InternalServerErrorException ''AI model returned invalid or incomplete data.'') \<and>
         deleteImage_calls (snd (extractReceiptDetails env ai f w)) = deleteImage_calls w @ [url] \<and>
         receipts (snd (extractReceiptDetails env ai f w)) = receipts w"
proof -
  from saveImage_ok [OF save] have v: "isValidImageFile f"
    and r: "receipts w1 = receipts w" and c: "deleteImage_calls w1 = deleteImage_calls w"
    by (simp_all add: isValidImageFile_def allowedMimeTypes_def)
  have "extractReceiptDetails_body env ai f w =
          (Inl (InternalServerErrorException ''AI model returned invalid or incomplete data.''),
           deleteImage url w1)"
    using v save ai conv bad by (simp add: extractReceiptDetails_body_def)
  then show ?thesis using r c
    by (simp add: extractReceiptDetails_def reclassify_def deleteImage_effect)
qed

theorem invalid_record_cleanup_witness:
  "saveImage sample_env jpeg_file empty_world =
     (Inr (js ''/uploads/0b7e.jpg''),
      empty_world\<lparr>upload_dir_exists := True,
                   files := [js ''uploads/0b7e.jpg'' \<mapsto> [255, 216, 255]]\<rparr>) \<and>
   extractReceiptData negative_tax_env [255, 216, 255] =
     Inr \<lparr>date = JStr (js ''2024-01-15''), currency = JStr (js ''USD''),
          vendor_name = JStr (js ''Test Store''),
          receipt_items = [\<lparr>item_name = JStr (js ''Test Item''), item_cost = Num (fl (1099 / 100))\<rparr>],
          tax = Num (fl (- 11 / 10)), total = Num (fl (1209 / 100))\<rparr> \<and>
   \<not> ToString_throws (JStr (js ''Test Store'')) \<and>
   fst (extractReceiptDetails sample_env (extractReceiptData negative_tax_env) jpeg_file empty_world) =
     Inl (InternalServerErrorException ''AI model returned invalid or incomplete data.'') \<and>
   deleteImage_calls (snd (extractReceiptDetails sample_env (extractReceiptData negative_tax_env)
     jpeg_file empty_world)) = [js ''/uploads/0b7e.jpg''] \<and>
   receipts (snd (extractReceiptDetails sample_env (extractReceiptData negative_tax_env)
     jpeg_file empty_world)) = []"
proof -
  let ?d = "\<lparr>date = JStr (js ''2024-01-15''), currency = JStr (js ''USD''),
          vendor_name = JStr (js ''Test Store''),
          receipt_items = [\<lparr>item_name = JStr (js ''Test Item''), item_cost = Num (fl (1099 / 100))\<rparr>],
          tax = Num (fl (- 11 / 10)), total = Num (fl (1209 / 100))\<rparr>"
  let ?w1 = "empty_world\<lparr>upload_dir_exists := True,
                   files := [js ''uploads/0b7e.jpg'' \<mapsto> [255, 216, 255]]\<rparr>"
  have ext: "simple_extname (js ''test-receipt.jpg'') = js ''.jpg''"
    by (simp add: js_def)
  have s: "saveImage sample_env jpeg_file empty_world = (Inr (js ''/uploads/0b7e.jpg''), ?w1)"
    by (simp add: saveImage_def saveImage_body_def validateFile_def ensureUploadDirectory_def
        writeFile_def generateSecureFilename_def join_path_def uploadDir_def sample_env_def
        jpeg_file_def empty_world_def maxFileSize_def allowedExtensions_def allowedMimeTypes_def
        toLowerCase_def isUpper_def ext Let_def, simp add: js_def)
  have a: "extractReceiptData negative_tax_env (case buffer jpeg_file of None \<Rightarrow> [] | Some b \<Rightarrow> b) = Inr ?d"
    by code_simp
  have c: "\<not> ToString_throws (vendor_name ?d)"
    by simp
  have b: "\<not> isValidAiResponse ?d"
    by code_simp
  show ?thesis
    using invalid_record_cleanup [where ai = "extractReceiptData negative_tax_env", OF s a c b] s a
    by (simp add: empty_world_def jpeg_file_def)
qed

section \<open>Deleting a record\<close>

text \<open>
  Claim C9 says that deleting a record also deletes its image from the file store.  It
  does not: \<open>deleteImage\<close> looks the file up and writes a log line, and the file stays.
  In the sample world the record is gone after the call and the image is still stored.
\<close>

theorem deleteReceipt_keeps_image_counterexample:
  "fst (deleteReceipt sample_env (js ''r-1'') one_receipt_world) = Inr () \<and>
   receipts (snd (deleteReceipt sample_env (js ''r-1'') one_receipt_world)) = [] \<and>
   files (snd (deleteReceipt sample_env (js ''r-1'') one_receipt_world))
     (js ''uploads/test-image.jpg'') = Some [255, 216, 255]"
  by (simp add: deleteReceipt_def deleteReceipt_body_def repo_findOne_def repo_remove_def
      deleteImage_def sample_env_def one_receipt_world_def stored_receipt_def Let_def js_def)

text \<open>
  Claim C9, amended.  Deleting a stored record, with the database answering, succeeds and
  removes the record from the record store; \<open>deleteImage\<close> is called once, with the
  image reference of the record, and leaves every stored file in place.  Nothing is asked
  of the file store: whether the image exists or not, the record is removed.
\<close>

theorem deleteReceipt_removes_record:
  assumes found: "find (\<lambda>x. id x = rid) (receipts w) = Some r"
      and db: "findOne_ok env" "remove_ok env"
  shows "fst (deleteReceipt env rid w) = Inr () \<and>
         receipts (snd (deleteReceipt env rid w)) = filter (\<lambda>x. id x \<noteq> rid) (receipts w) \<and>
         deleteImage_calls (snd (deleteReceipt env rid w)) = deleteImage_calls w @ [image_url r] \<and>
         files (snd (deleteReceipt env rid w)) = files w"
proof -
  have rid: "id r = rid" using found by (auto simp: find_Some_iff)
  have "deleteReceipt_body env rid w =
          (Inr (), (deleteImage (image_url r) w)
             \<lparr>receipts := filter (\<lambda>x. id x \<noteq> rid) (receipts (deleteImage (image_url r) w))\<rparr>)"
    using found db rid by (simp add: deleteReceipt_body_def repo_findOne_def repo_remove_def)
  then show ?thesis
    by (simp add: deleteReceipt_def deleteImage_effect)
qed

theorem deleteReceipt_removes_record_witness:
  "find (\<lambda>x. id x = js ''r-1'') (receipts one_receipt_world) = Some stored_receipt \<and>
   findOne_ok sample_env \<and> remove_ok sample_env \<and>
   fst (deleteReceipt sample_env (js ''r-1'') one_receipt_world) = Inr () \<and>
   receipts (snd (deleteReceipt sample_env (js ''r-1'') one_receipt_world)) = [] \<and>
   deleteImage_calls (snd (deleteReceipt sample_env (js ''r-1'') one_receipt_world)) =
     [js ''/uploads/test-image.jpg''] \<and>
   files (snd (deleteReceipt sample_env (js ''r-1'') one_receipt_world)) =
     files one_receipt_world"
proof -
  have f: "find (\<lambda>x. id x = js ''r-1'') (receipts one_receipt_world) = Some stored_receipt"
    by (simp add: one_receipt_world_def stored_receipt_def)
  have d: "findOne_ok sample_env" "remove_ok sample_env"
    by (simp_all add: sample_env_def)
  show ?thesis
    using deleteReceipt_removes_record [OF f d] f d
    by (simp add: one_receipt_world_def stored_receipt_def)
qed

section \<open>The coercion of a structured answer\<close>

lemma get_prop_total: "data \<noteq> JNull \<Longrightarrow> \<exists>x. get_prop data k = Inr x"
  by (cases data) auto

lemma get_prop_Inr: "get_prop data k = Inr x \<Longrightarrow> data \<noteq> JNull"
  by (cases data) auto

lemma coerce_item_total: "x \<noteq> JNull \<Longrightarrow> \<exists>i. coerce_item x = Inr i"
  by (cases x) (auto simp: coerce_item_def and_then_def)

lemma coerce_item_coerced: "coerce_item x = Inr i \<Longrightarrow> item_coerced x i"
  by (cases x)
     (auto simp: coerce_item_def and_then_def item_coerced_def falsy_or_missing_def or_default_def
        number_or_zero_def split: option.splits json.splits)

lemma map_items_total: "JNull \<notin> set xs \<Longrightarrow> \<exists>is. map_items xs = Inr is"
proof (induction xs)
  case Nil
  then show ?case by simp
next
  case (Cons x xs)
  then obtain i "is" where "coerce_item x = Inr i" "map_items xs = Inr is"
    using coerce_item_total [of x] by auto
  then show ?case by (simp add: and_then_def)
qed

lemma map_items_coerced: "map_items xs = Inr is \<Longrightarrow> list_all2 item_coerced xs is"
proof (induction xs arbitrary: "is")
  case Nil
  then show ?case by simp
next
  case (Cons x xs)
  then obtain i is' where i: "coerce_item x = Inr i" and r: "map_items xs = Inr is'"
    and e: "is = i # is'"
    by (auto simp: and_then_def split: sum.splits)
  from coerce_item_coerced [OF i] Cons.IH [OF r] e show ?case by simp
qed

lemma and_then_Inr: "and_then (Inr x) f = f x"
  by (simp add: and_then_def)

lemma and_then_Inl: "and_then (Inl e) f = Inl e"
  by (simp add: and_then_def)

lemma validate_null: "validateAndTransformGptResponse c JNull = Inl (Error ''TypeError'')"
  by (simp add: validateAndTransformGptResponse_def and_then_Inl)

lemma validate_Inr:
  assumes "validateAndTransformGptResponse c data = Inr v"
  shows "\<exists>d cur vendor its items0 tx tot.
           get_prop data ''date'' = Inr d \<and> get_prop data ''currency'' = Inr cur \<and>
           get_prop data ''vendor_name'' = Inr vendor \<and>
           get_prop data ''receipt_items'' = Inr its \<and>
           (case its of Some (JArr xs) \<Rightarrow> map_items xs | _ \<Rightarrow> Inr general_items) = Inr items0 \<and>
           get_prop data ''tax'' = Inr tx \<and> get_prop data ''total'' = Inr tot \<and>
           date v = or_default d (JStr (iso_date c)) \<and>
           currency v = or_default cur (JStr (js ''USD'')) \<and>
           vendor_name v = or_default vendor (JStr (js ''Unknown Vendor'')) \<and>
           receipt_items v = (if items0 = [] then general_items else items0) \<and>
           tax v = number_or_zero tx \<and>
           total v = (if number_or_zero tot = Num 0
                      then js_add (sum_costs (receipt_items v)) (tax v)
                      else number_or_zero tot)"
proof -
  have nn: "data \<noteq> JNull" using assms validate_null by auto
  obtain d where d: "get_prop data ''date'' = Inr d" using get_prop_total [OF nn] by blast
  obtain cur where cur: "get_prop data ''currency'' = Inr cur" using get_prop_total [OF nn] by blast
  obtain vendor where vendor: "get_prop data ''vendor_name'' = Inr vendor"
    using get_prop_total [OF nn] by blast
  obtain its where its: "get_prop data ''receipt_items'' = Inr its"
    using get_prop_total [OF nn] by blast
  obtain tx where tx: "get_prop data ''tax'' = Inr tx" using get_prop_total [OF nn] by blast
  obtain tot where tot: "get_prop data ''total'' = Inr tot" using get_prop_total [OF nn] by blast
  let ?m = "case its of Some (JArr xs) \<Rightarrow> map_items xs | _ \<Rightarrow> Inr general_items"
  obtain items0 where items0: "?m = Inr items0"
  proof (cases ?m)
    case (Inl e)
    then have "validateAndTransformGptResponse c data = Inl e"
      unfolding validateAndTransformGptResponse_def d cur vendor its and_then_Inr
      by (simp only: and_then_Inl)
    with assms show ?thesis by simp
  next
    case (Inr x)
    then show ?thesis using that by blast
  qed
  have g: "general_items \<noteq> []" by (simp add: general_items_def)
  have v: "v = (let validatedData =
              \<lparr>date = or_default d (JStr (iso_date c)),
               currency = or_default cur (JStr (js ''USD'')),
               vendor_name = or_default vendor (JStr (js ''Unknown Vendor'')),
               receipt_items = items0,
               tax = number_or_zero tx,
               total = number_or_zero tot\<rparr>;
            validatedData =
              (if length (receipt_items validatedData) = 0
               then validatedData\<lparr>receipt_items := general_items\<rparr>
               else validatedData);
            validatedData =
              (if total validatedData = Num 0 \<and> length (receipt_items validatedData) > 0
               then validatedData\<lparr>total :=
                      js_add (sum_costs (receipt_items validatedData)) (tax validatedData)\<rparr>
               else validatedData)
        in validatedData)"
    using assms
    unfolding validateAndTransformGptResponse_def d cur vendor its tx tot items0 and_then_Inr
    by (simp add: Let_def)
  have "date v = or_default d (JStr (iso_date c))"
    and "currency v = or_default cur (JStr (js ''USD''))"
    and "vendor_name v = or_default vendor (JStr (js ''Unknown Vendor''))"
    and "receipt_items v = (if items0 = [] then general_items else items0)"
    and "tax v = number_or_zero tx"
    and "total v = (if number_or_zero tot = Num 0
                      then js_add (sum_costs (receipt_items v)) (tax v)
                      else number_or_zero tot)"
    unfolding v using g by (simp_all add: Let_def)
  with d cur vendor its tx tot items0 show ?thesis by blast
qed

text \<open>
  Claim C5 says that the step produces a record for every JSON value and that a currency
  which is not a string becomes \<open>USD\<close>.  On \<open>null\<close> the step throws a type error, and
  the number 42 given as currency is kept as it is.
\<close>

theorem coercion_counterexample:
  "validateAndTransformGptResponse clock0 JNull = Inl (Error ''TypeError'') \<and>
   validateAndTransformGptResponse clock0 (JObj [(js ''currency'', JNum 42)]) =
     Inr \<lparr>date = JStr (js ''2024-01-15''), currency = JNum 42,
          vendor_name = JStr (js ''Unknown Vendor''),
          receipt_items = [\<lparr>item_name = JStr (js ''General Items''), item_cost = Num 0\<rparr>],
          tax = Num 0, total = Num 0\<rparr>"
  by code_simp

text \<open>
  Claim C5, amended.  On every JSON value that is not \<open>null\<close> and whose
  \<open>receipt_items\<close>, when an array, has no \<open>null\<close> element, the step returns a
  record.  In every record it returns: a missing date is the current date in ISO form; a
  currency that is missing or falsy (\<open>null\<close>, empty, 0, \<open>false\<close>) is \<open>USD\<close>, and a
  non-empty string is kept; a missing vendor name is \<open>Unknown Vendor\<close>; items that are
  not an array, or an empty array, are the one placeholder item; every element of a
  non-empty array is coerced as \<open>item_coerced\<close> says; a tax that is a number is kept and
  any other tax is 0; a total that is a number other than 0 is kept, and any other total
  is the sum of the item costs plus the tax.
\<close>

theorem validateAndTransformGptResponse_coerces:
  "(data \<noteq> JNull \<and>
    (\<forall>xs. get_prop data ''receipt_items'' = Inr (Some (JArr xs)) \<longrightarrow> JNull \<notin> set xs)
      \<longrightarrow> (\<exists>v. validateAndTransformGptResponse c data = Inr v)) \<and>
   (\<forall>v. validateAndTransformGptResponse c data = Inr v \<longrightarrow>
      (get_prop data ''date'' = Inr None \<longrightarrow> date v = JStr (iso_date c)) \<and>
      (falsy_or_missing (get_prop data ''currency'') \<longrightarrow> currency v = JStr (js ''USD'')) \<and>
      (\<forall>s. get_prop data ''currency'' = Inr (Some (JStr s)) \<and> s \<noteq> [] \<longrightarrow> currency v = JStr s) \<and>
      (get_prop data ''vendor_name'' = Inr None \<longrightarrow>
         vendor_name v = JStr (js ''Unknown Vendor'')) \<and>
      ((\<forall>xs. get_prop data ''receipt_items'' \<noteq> Inr (Some (JArr xs))) \<or>
       get_prop data ''receipt_items'' = Inr (Some (JArr [])) \<longrightarrow>
         receipt_items v = [\<lparr>item_name = JStr (js ''General Items''), item_cost = Num 0\<rparr>]) \<and>
      (\<forall>xs. get_prop data ''receipt_items'' = Inr (Some (JArr xs)) \<and> xs \<noteq> [] \<longrightarrow>
         list_all2 item_coerced xs (receipt_items v)) \<and>
      (\<forall>n. get_prop data ''tax'' = Inr (Some (JNum n)) \<longrightarrow> tax v = Num n) \<and>
      ((\<forall>n. get_prop data ''tax'' \<noteq> Inr (Some (JNum n))) \<longrightarrow> tax v = Num 0) \<and>
      (\<forall>n. get_prop data ''total'' = Inr (Some (JNum n)) \<and> n \<noteq> 0 \<longrightarrow> total v = Num n) \<and>
      ((\<forall>n. get_prop data ''total'' = Inr (Some (JNum n)) \<longrightarrow> n = 0) \<longrightarrow>
         total v = js_add (sum_costs (receipt_items v)) (tax v)))"
proof (intro conjI allI impI)
  assume a: "data \<noteq> JNull \<and>
    (\<forall>xs. get_prop data ''receipt_items'' = Inr (Some (JArr xs)) \<longrightarrow> JNull \<notin> set xs)"
  then have nn: "data \<noteq> JNull" by simp
  obtain d where d: "get_prop data ''date'' = Inr d" using get_prop_total [OF nn] by blast
  obtain cur where cur: "get_prop data ''currency'' = Inr cur" using get_prop_total [OF nn] by blast
  obtain vendor where vendor: "get_prop data ''vendor_name'' = Inr vendor"
    using get_prop_total [OF nn] by blast
  obtain its where its: "get_prop data ''receipt_items'' = Inr its"
    using get_prop_total [OF nn] by blast
  obtain tx where tx: "get_prop data ''tax'' = Inr tx" using get_prop_total [OF nn] by blast
  obtain tot where tot: "get_prop data ''total'' = Inr tot" using get_prop_total [OF nn] by blast
  have "\<exists>items0. (case its of Some (JArr xs) \<Rightarrow> map_items xs | _ \<Rightarrow> Inr general_items) = Inr items0"
    using a its map_items_total by (auto split: option.splits json.splits)
  then obtain items0 where
    items0: "(case its of Some (JArr xs) \<Rightarrow> map_items xs | _ \<Rightarrow> Inr general_items) = Inr items0"
    by blast
  show "\<exists>v. validateAndTransformGptResponse c data = Inr v"
    unfolding validateAndTransformGptResponse_def d cur vendor its tx tot items0 and_then_Inr
    by (simp add: Let_def)
next
  fix v assume v: "validateAndTransformGptResponse c data = Inr v"
  from validate_Inr [OF v] obtain d cur vendor its items0 tx tot where
    p: "get_prop data ''date'' = Inr d" "get_prop data ''currency'' = Inr cur"
       "get_prop data ''vendor_name'' = Inr vendor" "get_prop data ''receipt_items'' = Inr its"
       "get_prop data ''tax'' = Inr tx" "get_prop data ''total'' = Inr tot"
    and m: "(case its of Some (JArr xs) \<Rightarrow> map_items xs | _ \<Rightarrow> Inr general_items) = Inr items0"
    and f: "date v = or_default d (JStr (iso_date c))"
       "currency v = or_default cur (JStr (js ''USD''))"
       "vendor_name v = or_default vendor (JStr (js ''Unknown Vendor''))"
       "receipt_items v = (if items0 = [] then general_items else items0)"
       "tax v = number_or_zero tx"
       "total v = (if number_or_zero tot = Num 0
                      then js_add (sum_costs (receipt_items v)) (tax v)
                      else number_or_zero tot)"
    by blast
  {
    assume "get_prop data ''date'' = Inr None"
    then show "date v = JStr (iso_date c)" using p f by (simp add: or_default_def)
  next
    assume "falsy_or_missing (get_prop data ''currency'')"
    then show "currency v = JStr (js ''USD'')" using p f
      by (auto simp: or_default_def falsy_or_missing_def)
  next
    fix s assume "get_prop data ''currency'' = Inr (Some (JStr s)) \<and> s \<noteq> []"
    then show "currency v = JStr s" using p f by (simp add: or_default_def)
  next
    assume "get_prop data ''vendor_name'' = Inr None"
    then show "vendor_name v = JStr (js ''Unknown Vendor'')" using p f by (simp add: or_default_def)
  next
    assume "(\<forall>xs. get_prop data ''receipt_items'' \<noteq> Inr (Some (JArr xs))) \<or>
       get_prop data ''receipt_items'' = Inr (Some (JArr []))"
    then have "items0 = general_items \<or> items0 = []"
      using p m by (auto split: option.splits json.splits)
    then show "receipt_items v = [\<lparr>item_name = JStr (js ''General Items''), item_cost = Num 0\<rparr>]"
      using f by (auto simp: general_items_def)
  next
    fix xs assume a: "get_prop data ''receipt_items'' = Inr (Some (JArr xs)) \<and> xs \<noteq> []"
    then have mi: "map_items xs = Inr items0" using p m by simp
    then have l: "list_all2 item_coerced xs items0" by (rule map_items_coerced)
    then have "items0 \<noteq> []" using a by auto
    then show "list_all2 item_coerced xs (receipt_items v)" using l f by simp
  next
    fix n assume "get_prop data ''tax'' = Inr (Some (JNum n))"
    then show "tax v = Num n" using p f by (simp add: number_or_zero_def)
  next
    assume "\<forall>n. get_prop data ''tax'' \<noteq> Inr (Some (JNum n))"
    then show "tax v = Num 0" using p f
      by (auto simp: number_or_zero_def split: option.splits json.splits)
  next
    fix n assume "get_prop data ''total'' = Inr (Some (JNum n)) \<and> n \<noteq> 0"
    then show "total v = Num n" using p f by (simp add: number_or_zero_def)
  next
    assume "\<forall>n. get_prop data ''total'' = Inr (Some (JNum n)) \<longrightarrow> n = 0"
    then have "number_or_zero tot = Num 0" using p
      by (auto simp: number_or_zero_def split: option.splits json.splits)
    then show "total v = js_add (sum_costs (receipt_items v)) (tax v)" using f by simp
  }
qed

theorem validateAndTransformGptResponse_coerces_witness:
  "validateAndTransformGptResponse clock0 partial_json = Inr partial_record \<and>
   get_prop partial_json ''date'' = Inr None \<and>
   date partial_record = JStr (iso_date clock0) \<and>
   falsy_or_missing (get_prop partial_json ''currency'') \<and>
   currency partial_record = JStr (js ''USD'') \<and>
   total partial_record = js_add (sum_costs (receipt_items partial_record)) (tax partial_record)"
proof -
  have e: "validateAndTransformGptResponse clock0 partial_json = Inr partial_record"
    by code_simp
  have d: "get_prop partial_json ''date'' = Inr None"
    by (simp add: partial_json_def js_def)
  have c: "falsy_or_missing (get_prop partial_json ''currency'')"
    by (simp add: partial_json_def js_def falsy_or_missing_def)
  have t: "\<forall>n. get_prop partial_json ''total'' = Inr (Some (JNum n)) \<longrightarrow> n = 0"
    by (simp add: partial_json_def js_def)
  show ?thesis
    using validateAndTransformGptResponse_coerces [of partial_json clock0] e d c t
    by blast
qed

section \<open>The sample receipt\<close>

text \<open>
  Claim C3 says that the one item of the sample text is derived from its last line.  The
  last line of a text is never examined for an item, and no other line of the sample has a
  price: the one item is the placeholder, with cost 0.
\<close>

theorem test_store_item_counterexample:
  "receipt_items (parseReceiptText clock0 test_store_text) =
     [\<lparr>item_name = JStr (js ''General Items''), item_cost = Num 0\<rparr>] \<and>
   item_of_line 4 (3, js ''Item: Test Item $10.99'') = []"
  by code_simp

text \<open>
  Claim C3, amended.  For the sample text the parser returns the vendor name
  \<open>Test Store\<close>, the currency \<open>USD\<close> and exactly one item, the placeholder
  \<open>General Items\<close> with cost 0; the date is \<open>24-01-15\<close>, the tax 0 and the total 0.
\<close>

theorem test_store_record:
  "parseReceiptText k test_store_text =
     \<lparr>date = JStr (js ''24-01-15''), currency = JStr (js ''USD''),
      vendor_name = JStr (js ''Test Store''),
      receipt_items = [\<lparr>item_name = JStr (js ''General Items''), item_cost = Num 0\<rparr>],
      tax = Num 0, total = Num 0\<rparr>"
  by code_simp

section \<open>Currency signatures\<close>

lemma re_test_iff:
  "re_test ci r text \<longleftrightarrow> (\<exists>a b. text = a @ b \<and> rm ci r (prev_unit None a, b) \<noteq> [])"
proof
  assume "re_test ci r text"
  then obtain pre m post where s: "search ci r None text = Some (pre, m, post)"
    by (auto simp: re_test_def)
  from search_Some [OF s] show "\<exists>a b. text = a @ b \<and> rm ci r (prev_unit None a, b) \<noteq> []"
    by blast
next
  assume "\<exists>a b. text = a @ b \<and> rm ci r (prev_unit None a, b) \<noteq> []"
  then obtain a b where t: "text = a @ b" and m: "rm ci r (prev_unit None a, b) \<noteq> []" by blast
  show "re_test ci r text"
  proof (rule ccontr)
    assume "\<not> re_test ci r text"
    then have "search ci r None text = None" unfolding re_test_def by blast
    then have "search ci r None (a @ b) = None" using t by simp
    from search_None [OF this] m show False by simp
  qed
qed

lemma has_word_from_iff:
  "has_word_from p w xs \<longleftrightarrow> (\<exists>a b. xs = a @ b \<and> word_at (prev_unit p a) w b)"
proof (induction xs arbitrary: p)
  case Nil
  then show ?case by (simp add: prev_unit_def)
next
  case (Cons x xs)
  show ?case
  proof
    assume "has_word_from p w (x # xs)"
    then consider "word_at p w (x # xs)" | "has_word_from (Some x) w xs" by auto
    then show "\<exists>a b. x # xs = a @ b \<and> word_at (prev_unit p a) w b"
    proof cases
      case 1
      then have "x # xs = [] @ (x # xs) \<and> word_at (prev_unit p []) w (x # xs)"
        by (simp add: prev_unit_def)
      then show ?thesis by blast
    next
      case 2
      then obtain a b where ab: "xs = a @ b" "word_at (prev_unit (Some x) a) w b"
        using Cons.IH by blast
      then have "x # xs = (x # a) @ b \<and> word_at (prev_unit p (x # a)) w b"
        by (cases "a = []") (simp_all add: prev_unit_def)
      then show ?thesis by blast
    qed
  next
    assume "\<exists>a b. x # xs = a @ b \<and> word_at (prev_unit p a) w b"
    then obtain a b where ab: "x # xs = a @ b" "word_at (prev_unit p a) w b" by blast
    show "has_word_from p w (x # xs)"
    proof (cases a)
      case Nil
      with ab have "b = x # xs" and "word_at p w b" by (simp_all add: prev_unit_def)
      then show ?thesis by simp
    next
      case (Cons y a')
      then have "xs = a' @ b" and "word_at (prev_unit (Some x) a') w b"
        using ab by (auto simp: prev_unit_def split: if_splits)
      then have "has_word_from (Some x) w xs" using Cons.IH by blast
      then show ?thesis by simp
    qed
  qed
qed

lemma canon_False: "canon False c = c"
  by (simp add: canon_def)

lemma rm_Lit:
  "w \<noteq> [] \<Longrightarrow> rm False (Lit w) (p, xs) =
     (if take (length w) xs = w then [(Some (last w), drop (length w) xs)] else [])"
proof (induction w arbitrary: p xs rule: Lit.induct)
  case 1
  then show ?case by simp
next
  case (2 c)
  then show ?case by (cases xs) (auto simp: canon_False)
next
  case (3 c v va)
  show ?case
  proof (cases xs)
    case Nil
    then show ?thesis by simp
  next
    case (Cons x xs')
    then show ?thesis using "3.IH" [of "Some x" xs'] by (auto simp: canon_False)
  qed
qed

lemma rm_bword:
  assumes "w \<noteq> []" "isWordChar (hd (js w))" "isWordChar (last (js w))"
  shows "rm False (bword w) (p, xs) \<noteq> [] \<longleftrightarrow> word_at p (js w) xs"
proof -
  have ne: "js w \<noteq> []" using assms(1) by (simp add: js_def)
  show ?thesis
  proof (cases "take (length (js w)) xs = js w")
    case False
    then show ?thesis using ne
      by (simp add: bword_def Word_def rm_Lit word_at_def)
  next
    case True
    then obtain x xs' where xs: "xs = x # xs'" and x: "x = hd (js w)"
      using ne by (cases xs; cases "js w") auto
    show ?thesis using True ne assms(2,3) xs x
      by (auto simp: bword_def Word_def rm_Lit word_at_def is_word_opt_def next_unit_def)
  qed
qed

lemma re_test_bword:
  assumes "w \<noteq> []" "isWordChar (hd (js w))" "isWordChar (last (js w))"
  shows "re_test False (bword w) text \<longleftrightarrow> has_word w text"
  unfolding re_test_iff has_word_def has_word_from_iff rm_bword [OF assms] ..

lemma re_test_Alt:
  "re_test ci (Alt a b) text \<longleftrightarrow> re_test ci a text \<or> re_test ci b text"
  unfolding re_test_iff by auto

lemma re_test_Chr: "re_test False (Chr c) text \<longleftrightarrow> c \<in> set text"
proof -
  have "\<And>p b. rm False (Chr c) (p, b) \<noteq> [] \<longleftrightarrow> (\<exists>b'. b = c # b')"
    by (auto simp: canon_False split: list.splits)
  then show ?thesis unfolding re_test_iff
    by (metis in_set_conv_decomp)
qed

lemma us_dollar_has_dollar:
  assumes "re_test False (Seq WordB (Seq (Word ''US$'') WordB)) text"
  shows "36 \<in> set text"
proof -
  from assms obtain a b where t: "text = a @ b"
    and m: "rm False (Seq WordB (Seq (Word ''US$'') WordB)) (prev_unit None a, b) \<noteq> []"
    unfolding re_test_iff by blast
  have "take 3 b = js ''US$''"
  proof (rule ccontr)
    assume n: "take 3 b \<noteq> js ''US$''"
    have l: "length (js ''US$'') = 3" by (simp add: js_def)
    have "rm False (Lit (js ''US$'')) (prev_unit None a, b) =
       (if take (length (js ''US$'')) b = js ''US$''
        then [(Some (last (js ''US$'')), drop (length (js ''US$'')) b)] else [])"
      by (rule rm_Lit) (simp add: js_def)
    then have "rm False (Lit (js ''US$'')) (prev_unit None a, b) = []"
      using n unfolding l by simp
    then have "rm False (Seq WordB (Seq (Word ''US$'') WordB)) (prev_unit None a, b) = []"
      by (simp add: Word_def)
    with m show False by simp
  qed
  then have "36 \<in> set (take 3 b)" by (simp add: js_def)
  then have "36 \<in> set b" by (rule in_set_takeD)
  then show ?thesis using t by simp
qed

lemma currency_words:
  "re_test False (bword ''CHF'') text = has_word ''CHF'' text"
  "re_test False (bword ''Swiss'') text = has_word ''Swiss'' text"
  "re_test False (bword ''Schweiz'') text = has_word ''Schweiz'' text"
  "re_test False (bword ''USD'') text = has_word ''USD'' text"
  "re_test False (bword ''EUR'') text = has_word ''EUR'' text"
  "re_test False (bword ''GBP'') text = has_word ''GBP'' text"
  "re_test False (bword ''CAD'') text = has_word ''CAD'' text"
  "re_test False (bword ''AUD'') text = has_word ''AUD'' text"
  by (rule re_test_bword; simp add: js_def isWordChar_def isUpper_def isLower_def)+

lemma usd_signature:
  "re_test False (Alts [Chr 36, bword ''USD'', Seq WordB (Seq (Word ''US$'') WordB)]) text
     \<longleftrightarrow> 36 \<in> set text \<or> has_word ''USD'' text"
  using us_dollar_has_dollar [of "text"]
  by (auto simp: re_test_Alt re_test_Chr currency_words)

text \<open>
  Claim C6, amended.  A word is a whole word of a text where it occurs with no word
  character directly before or after it; the word characters are the ASCII letters
  \<open>A\<close> to \<open>Z\<close> and \<open>a\<close> to \<open>z\<close>, the digits and the underscore, so that any other
  character, a letter outside ASCII too, ends a word.  \<open>extractCurrency\<close> returns
  \<open>CHF\<close> when the text has \<open>CHF\<close>, \<open>Swiss\<close> or \<open>Schweiz\<close> as a whole word;
  otherwise \<open>USD\<close> when it has a dollar sign or the whole word \<open>USD\<close>; otherwise
  \<open>EUR\<close> when it has a euro sign or the whole word \<open>EUR\<close>; otherwise \<open>GBP\<close> when
  it has a pound sign or the whole word \<open>GBP\<close>; otherwise \<open>CAD\<close>, then \<open>AUD\<close>, when
  the whole word occurs; and \<open>USD\<close> when nothing of this occurs.
\<close>

theorem extractCurrency_priority:
  "extractCurrency text =
    (if has_word ''CHF'' text \<or> has_word ''Swiss'' text \<or> has_word ''Schweiz'' text
       then js ''CHF''
     else if 36 \<in> set text \<or> has_word ''USD'' text then js ''USD''
     else if euro_sign \<in> set text \<or> has_word ''EUR'' text then js ''EUR''
     else if pound_sign \<in> set text \<or> has_word ''GBP'' text then js ''GBP''
     else if has_word ''CAD'' text then js ''CAD''
     else if has_word ''AUD'' text then js ''AUD''
     else js ''USD'')"
  unfolding extractCurrency_def currencyPatterns_def currency_loop.simps usd_signature
  by (simp add: re_test_Alt re_test_Chr currency_words)

text \<open>
  Claim C6 says that a text which contains \<open>CHF\<close> yields \<open>CHF\<close>.  The pattern asks
  for word boundaries around the code: directly after a digit, \<open>CHF\<close> is not found and
  the default is returned.
\<close>

theorem extractCurrency_substring_counterexample:
  "extractCurrency (js ''Total 12.09CHF'') = js ''USD'' \<and>
   js ''Total 12.09CHF'' = js ''Total 12.09'' @ js ''CHF''"
  by code_simp

theorem extractCurrency_priority_witness:
  "has_word ''CHF'' (js ''Total: CHF 15.50 ($16.90)'') \<and>
   extractCurrency (js ''Total: CHF 15.50 ($16.90)'') = js ''CHF''"
proof -
  have h: "has_word ''CHF'' (js ''Total: CHF 15.50 ($16.90)'')"
    by code_simp
  show ?thesis using h extractCurrency_priority [of "js ''Total: CHF 15.50 ($16.90)''"]
    by simp
qed

section \<open>The date of a text\<close>

lemma search_skip:
  "(\<And>n. n < length a \<Longrightarrow> rm ci r (prev_unit p (take n a), drop n a @ b) = []) \<Longrightarrow>
   search ci r p (a @ b) =
     map_option (\<lambda>(pre, m, post). (a @ pre, m, post)) (search ci r (prev_unit p a) b)"
proof (induction a arbitrary: p)
  case Nil
  show ?case by (simp add: prev_unit_def option.map_ident split_def)
next
  case (Cons x a)
  have 0: "rm ci r (p, x # a @ b) = []"
    using Cons.prems [of 0] by (simp add: prev_unit_def)
  have "search ci r (Some x) (a @ b) =
     map_option (\<lambda>(pre, m, post). (a @ pre, m, post)) (search ci r (prev_unit (Some x) a) b)"
  proof (rule Cons.IH)
    fix n assume "n < length a"
    then have "rm ci r (prev_unit p (take (Suc n) (x # a)), drop (Suc n) (x # a) @ b) = []"
      using Cons.prems [of "Suc n"] by simp
    then show "rm ci r (prev_unit (Some x) (take n a), drop n a @ b) = []"
      by (cases "take n a = []") (simp_all add: prev_unit_def)
  qed
  moreover have "prev_unit (Some x) a = prev_unit p (x # a)"
    by (simp add: prev_unit_def)
  ultimately show ?case using 0
    by (simp add: option.map_comp comp_def split_def)
qed

lemma rm_digit_cons:
  "rm ci (Cls [Digit]) (p, c # cs) = (if isDigit c then [(Some c, cs)] else [])"
  by (simp add: in_class_Digit)

lemma rm_digit_nil: "rm ci (Cls [Digit]) (p, []) = []"
  by simp

lemma rm_sep_cons:
  "rm False date_sep (p, c # cs) = (if c = 47 \<or> c = 45 then [(Some c, cs)] else [])"
  by (auto simp: date_sep_def in_class_def js_def)

lemma digit_not_sep: "isDigit c \<Longrightarrow> c \<noteq> 47 \<and> c \<noteq> 45"
  by (auto simp: isDigit_def)

lemma rep_unroll:
  "rep lo 1 f st = concat (map (rep (lo - 1) 0 f)
       (if lo = 0 then filter (progress st) (f st) else f st)) @ (if lo = 0 then [st] else [])"
  "rep lo 2 f st = concat (map (rep (lo - 1) 1 f)
       (if lo = 0 then filter (progress st) (f st) else f st)) @ (if lo = 0 then [st] else [])"
  "rep lo 3 f st = concat (map (rep (lo - 1) 2 f)
       (if lo = 0 then filter (progress st) (f st) else f st)) @ (if lo = 0 then [st] else [])"
  "rep lo 4 f st = concat (map (rep (lo - 1) 3 f)
       (if lo = 0 then filter (progress st) (f st) else f st)) @ (if lo = 0 then [st] else [])"
proof -
  have n: "(1::nat) = Suc 0" "(2::nat) = Suc 1" "(3::nat) = Suc 2" "(4::nat) = Suc 3"
    by simp_all
  show "rep lo 1 f st = concat (map (rep (lo - 1) 0 f)
       (if lo = 0 then filter (progress st) (f st) else f st)) @ (if lo = 0 then [st] else [])"
    by (subst n(1)) (simp only: rep.simps)
  show "rep lo 2 f st = concat (map (rep (lo - 1) 1 f)
       (if lo = 0 then filter (progress st) (f st) else f st)) @ (if lo = 0 then [st] else [])"
    by (subst n(2)) (simp only: rep.simps)
  show "rep lo 3 f st = concat (map (rep (lo - 1) 2 f)
       (if lo = 0 then filter (progress st) (f st) else f st)) @ (if lo = 0 then [st] else [])"
    by (subst n(3)) (simp only: rep.simps)
  show "rep lo 4 f st = concat (map (rep (lo - 1) 3 f)
       (if lo = 0 then filter (progress st) (f st) else f st)) @ (if lo = 0 then [st] else [])"
    by (subst n(4)) (simp only: rep.simps)
qed

lemma dmy_three_digits:
  assumes "isDigit a" "isDigit b" "isDigit c"
  shows "rm False date_dmy_re (p, a # b # c # rest) = []"
  using assms digit_not_sep [of b] digit_not_sep [of c]
  unfolding date_dmy_re_def rm.simps(4) rm.simps(8)
  by (simp add: rep_unroll rm_digit_cons rm_sep_cons progress_def in_class_Digit)

lemma dmy_iso_tail_digits:
  assumes "isDigit y3" "isDigit y4" "isDigit m1" "isDigit m2" "isDigit d1" "isDigit d2"
  shows "\<exists>q rest. rm False date_dmy_re (p, y3 # y4 # 45 # m1 # m2 # 45 # d1 # d2 # post) =
           (q, drop (length (takeWhile isDigit (take 2 post))) post) # rest"
proof -
  have n45: "\<not> isDigit 45" by (simp add: isDigit_def)
  note s = rep_unroll rm_digit_cons rm_sep_cons progress_def in_class_Digit
  show ?thesis
  proof (cases post)
    case Nil
    then show ?thesis
      using assms digit_not_sep [of y4] digit_not_sep [of m2] n45
      unfolding date_dmy_re_def rm.simps(4) rm.simps(8)
      by (simp add: s)
  next
    case (Cons c cs)
    show ?thesis
    proof (cases cs)
      case Nil
      then show ?thesis
        using Cons assms digit_not_sep [of y4] digit_not_sep [of m2] n45
        unfolding date_dmy_re_def rm.simps(4) rm.simps(8)
        by (simp add: s)
    next
      case (Cons c' cs')
      then show ?thesis
        using \<open>post = c # cs\<close> assms digit_not_sep [of y4] digit_not_sep [of m2] n45
        unfolding date_dmy_re_def rm.simps(4) rm.simps(8)
        by (simp add: s)
    qed
  qed
qed

lemma take_takeWhile_take:
  "take (length (takeWhile P (take n xs))) xs = takeWhile P (take n xs)"
proof -
  define k where "k = length (takeWhile P (take n xs))"
  have le: "k \<le> n"
    unfolding k_def using length_takeWhile_le [of P "take n xs"] by simp
  have "takeWhile P (take n xs) = take k (take n xs)"
    unfolding k_def by (rule takeWhile_eq_take)
  also have "\<dots> = take k xs"
    using le by (simp only: take_take min_absorb1)
  finally have "take k xs = takeWhile P (take n xs)" by (rule sym)
  then show ?thesis by (simp only: k_def)
qed

text \<open>
  Claim C10 says that a text which contains an ISO date \<open>YYYY-MM-DD\<close>, with nothing
  date-shaped before it, yields \<open>YY-MM-DD\<close>.  The last field of the first pattern takes
  two to four digits and is greedy: digits that directly follow the date are taken into
  the match.  In the two sample texts no match of the first pattern starts before the
  date, and the result is longer than \<open>24-01-15\<close>.
\<close>

theorem extractDate_trailing_digits_counterexample:
  "extractDate clock0 (js ''Ref 2024-01-15001 paid'') = js ''24-01-1500'' \<and>
   js ''Ref 2024-01-15001 paid'' = js ''Ref '' @ js ''2024-01-15'' @ js ''001 paid'' \<and>
   \<not> match_starts False date_dmy_re (js ''Ref 2024-01-15001 paid'') 0 \<and>
   \<not> match_starts False date_dmy_re (js ''Ref 2024-01-15001 paid'') 1 \<and>
   \<not> match_starts False date_dmy_re (js ''Ref 2024-01-15001 paid'') 2 \<and>
   \<not> match_starts False date_dmy_re (js ''Ref 2024-01-15001 paid'') 3 \<and>
   extractDate clock0 (js ''Date 2024-01-1514:32'') = js ''24-01-1514''"
  by code_simp

text \<open>
  Claim C10, amended.  Take a text in which an ISO date \<open>YYYY-MM-DD\<close> stands and in
  which no match of the first pattern (one or two digits, a separator, one or two digits,
  a separator, two to four digits) starts before the date.  Then \<open>extractDate\<close>
  returns the date without the first two digits of its year, followed by the digits, two
  at most, that directly follow the date in the text: the first pattern is tried before
  the year-first one and matches from the third digit of the year on.  When no digit
  directly follows the date, the result is \<open>YY-MM-DD\<close>.
\<close>

theorem extractDate_truncates_iso_year:
  assumes digits: "list_all isDigit [y1, y2, y3, y4, m1, m2, d1, d2]"
      and earlier: "list_all (\<lambda>n. \<not> match_starts False date_dmy_re
                      (pre @ [y1, y2, y3, y4, 45, m1, m2, 45, d1, d2] @ post) n)
                    [0..<length pre]"
  shows "extractDate k (pre @ [y1, y2, y3, y4, 45, m1, m2, 45, d1, d2] @ post) =
           [y3, y4, 45, m1, m2, 45, d1, d2] @ takeWhile isDigit (take 2 post)"
proof -
  let ?iso = "[y1, y2, y3, y4, 45, m1, m2, 45, d1, d2] @ post"
  let ?q = "prev_unit None pre"
  let ?tk = "takeWhile isDigit (take 2 post)"
  have d: "isDigit y1" "isDigit y2" "isDigit y3" "isDigit y4" "isDigit m1" "isDigit m2"
    "isDigit d1" "isDigit d2"
    using digits by simp_all
  have skip: "search False date_dmy_re None (pre @ ?iso) =
     map_option (\<lambda>(a, m, b). (pre @ a, m, b)) (search False date_dmy_re ?q ?iso)"
  proof (rule search_skip)
    fix n assume n: "n < length pre"
    then have "\<not> match_starts False date_dmy_re (pre @ ?iso) n"
      using earlier by (simp add: list_all_iff)
    then show "rm False date_dmy_re (prev_unit None (take n pre), drop n pre @ ?iso) = []"
      using n by (simp add: match_starts_def)
  qed
  have 1: "rm False date_dmy_re (?q, y1 # y2 # y3 # y4 # 45 # m1 # m2 # 45 # d1 # d2 # post) = []"
    using d by (simp add: dmy_three_digits)
  have 2: "rm False date_dmy_re (Some y1, y2 # y3 # y4 # 45 # m1 # m2 # 45 # d1 # d2 # post) = []"
    using d by (simp add: dmy_three_digits)
  obtain q rest where 3:
    "rm False date_dmy_re (Some y2, y3 # y4 # 45 # m1 # m2 # 45 # d1 # d2 # post) =
       (q, drop (length ?tk) post) # rest"
    using dmy_iso_tail_digits [OF d(3-8)] by blast
  have le: "length ?tk \<le> length post"
    using length_takeWhile_le [of isDigit "take 2 post"] by simp
  have "search False date_dmy_re ?q ?iso =
      Some ([y1, y2], [y3, y4, 45, m1, m2, 45, d1, d2] @ take (length ?tk) post,
            drop (length ?tk) post)"
    using le by (simp add: 1 2 3 Suc_diff_le)
  then have "search False date_dmy_re None (pre @ ?iso) =
      Some (pre @ [y1, y2], [y3, y4, 45, m1, m2, 45, d1, d2] @ ?tk, drop (length ?tk) post)"
    using skip by (simp add: take_takeWhile_take)
  then show ?thesis
    by (simp add: extractDate_def datePatterns_def)
qed

theorem extractDate_truncates_iso_year_witness:
  "list_all isDigit [50, 48, 50, 52, 48, 49, 49, 53] \<and>
   list_all (\<lambda>n. \<not> match_starts False date_dmy_re
       (js ''Store\<newline>Date: '' @ [50, 48, 50, 52, 45, 48, 49, 45, 49, 53] @ js ''\<newline>Item: Test'') n)
     [0..<length (js ''Store\<newline>Date: '')] \<and>
   takeWhile isDigit (take 2 (js ''\<newline>Item: Test'')) = [] \<and>
   extractDate clock0 (js ''Store\<newline>Date: 2024-01-15\<newline>Item: Test'') = js ''24-01-15''"
proof -
  have a: "list_all isDigit [50, 48, 50, 52, 48, 49, 49, 53]"
    by (simp add: isDigit_def)
  have b: "takeWhile isDigit (take 2 (js ''\<newline>Item: Test'')) = []"
    by (simp add: js_def isDigit_def)
  have c: "list_all (\<lambda>n. \<not> match_starts False date_dmy_re
       (js ''Store\<newline>Date: '' @ [50, 48, 50, 52, 45, 48, 49, 45, 49, 53] @ js ''\<newline>Item: Test'') n)
     [0..<length (js ''Store\<newline>Date: '')]"
    by code_simp
  have e: "js ''Store\<newline>Date: '' @ [50, 48, 50, 52, 45, 48, 49, 45, 49, 53] @ js ''\<newline>Item: Test''
      = js ''Store\<newline>Date: 2024-01-15\<newline>Item: Test''"
    by (simp add: js_def)
  have f: "js ''24-01-15'' = [50, 52, 45, 48, 49, 45, 49, 53]"
    by (simp add: js_def)
  show ?thesis
    using extractDate_truncates_iso_year [OF a c, of clock0] a b c unfolding e f
    by simp
qed

section \<open>Tax and total\<close>




end
